theory Spec2Isabelle
  imports Main
begin

section \<open>The store: tables of the SQLite database\<close>

text \<open>
  \<^verbatim>\<open>DatabaseManager._createSchema\<close> creates four tables. A table is the list of its rows
  in rowid order; a nullable column is an \<open>option\<close>. The columns are prefixed with the
  table they belong to (\<open>c_\<close> conversations, \<open>t_\<close> tool_usage, \<open>fts_\<close> conversation_fts,
  \<open>fi_\<close> file_index). The surrogate rowid of \<open>tool_usage\<close> is never read by the code and is
  left out. Integers are SQLite's and JavaScript's integers, taken as unbounded.
\<close>

record conv_row =
  c_id :: string
  c_file_path :: string
  c_filename :: string
  c_project :: "string option"
  c_message_count :: int
  c_file_size :: int
  c_last_modified :: int
  c_created :: int
  c_tokens_total :: int
  c_tokens_input :: int
  c_tokens_output :: int
  c_primary_model :: "string option"
  c_indexed_at :: int
  c_is_subagent :: "int option"
  c_parent_id :: "string option"
  c_cwd :: "string option"

record tool_row =
  t_conversation_id :: string
  t_tool_name :: string
  t_call_count :: int

record fts_row =
  fts_conversation_id :: string
  fts_content :: string
  fts_project :: string

record file_row =
  fi_file_path :: string
  fi_mtime :: int
  fi_size :: int
  fi_indexed_at :: int

record database =
  conversations :: "conv_row list"
  tool_usage :: "tool_row list"
  conversation_fts :: "fts_row list"
  file_index :: "file_row list"

subsection \<open>The SQL statements the code prepares\<close>

text \<open>\<^verbatim>\<open>DELETE FROM conversation_fts WHERE conversation_id = ?\<close>\<close>

definition delete_fts :: "string \<Rightarrow> database \<Rightarrow> database" where
  "delete_fts cid db =
     db\<lparr>conversation_fts := filter (\<lambda>f. fts_conversation_id f \<noteq> cid) (conversation_fts db)\<rparr>"

text \<open>\<^verbatim>\<open>DELETE FROM tool_usage WHERE conversation_id = ?\<close>\<close>

definition delete_tools :: "string \<Rightarrow> database \<Rightarrow> database" where
  "delete_tools cid db =
     db\<lparr>tool_usage := filter (\<lambda>t. t_conversation_id t \<noteq> cid) (tool_usage db)\<rparr>"

text \<open>
  \<^verbatim>\<open>DELETE FROM conversations WHERE id = ?\<close>. The foreign key of \<open>tool_usage\<close> is declared
  \<^verbatim>\<open>ON DELETE CASCADE\<close>, so the tool rows of a deleted conversation go with it.
\<close>

definition delete_conversation :: "string \<Rightarrow> database \<Rightarrow> database" where
  "delete_conversation cid db =
     delete_tools cid (db\<lparr>conversations := filter (\<lambda>r. c_id r \<noteq> cid) (conversations db)\<rparr>)"

text \<open>\<^verbatim>\<open>UPDATE conversations SET parent_id = NULL WHERE parent_id = ?\<close>\<close>

definition clear_parent :: "string \<Rightarrow> conv_row \<Rightarrow> conv_row" where
  "clear_parent cid r = (if c_parent_id r = Some cid then r\<lparr>c_parent_id := None\<rparr> else r)"

definition clear_parent_refs :: "string \<Rightarrow> database \<Rightarrow> database" where
  "clear_parent_refs cid db = db\<lparr>conversations := map (clear_parent cid) (conversations db)\<rparr>"

text \<open>\<^verbatim>\<open>DELETE FROM file_index WHERE file_path = ?\<close>\<close>

definition delete_file_index :: "string \<Rightarrow> database \<Rightarrow> database" where
  "delete_file_index p db =
     db\<lparr>file_index := filter (\<lambda>f. fi_file_path f \<noteq> p) (file_index db)\<rparr>"

text \<open>\<^verbatim>\<open>SELECT id FROM conversations WHERE file_path = ?\<close> with \<^verbatim>\<open>.get\<close>: the first row, if any.\<close>

definition select_by_path :: "string \<Rightarrow> database \<Rightarrow> conv_row option" where
  "select_by_path p db = find (\<lambda>r. c_file_path r = p) (conversations db)"

subsection \<open>removeConversation and removeFile\<close>

text \<open>
  Both bodies run inside \<^verbatim>\<open>db.transaction\<close>: the body is one function from the database
  before to the database after, and no other state is visible in between.
\<close>

definition removeConversation :: "string \<Rightarrow> database \<Rightarrow> database" where
  "removeConversation cid db = delete_conversation cid (delete_tools cid (delete_fts cid db))"

definition removeFile :: "string \<Rightarrow> database \<Rightarrow> database" where
  "removeFile filePath db =
     delete_file_index filePath
       (case select_by_path filePath db of
          None \<Rightarrow> db
        | Some conv \<Rightarrow>
            delete_conversation (c_id conv)
              (delete_tools (c_id conv)
                (delete_fts (c_id conv)
                  (clear_parent_refs (c_id conv) db))))"

section \<open>JavaScript values\<close>

text \<open>
  A string is a list of code units below 256. \<^verbatim>\<open>String.prototype.trim\<close> and the regular
  expression class \<^verbatim>\<open>\s\<close> take the same characters as white space; below 256 these are
  TAB, LF, VT, FF, CR, SPACE and NO-BREAK SPACE.
\<close>

definition is_space :: "char \<Rightarrow> bool" where
  "is_space c \<longleftrightarrow>
     c \<in> set [CHR 0x09, CHR 0x0A, CHR 0x0B, CHR 0x0C, CHR 0x0D, CHR 0x20, CHR 0xA0]"

definition trim :: "string \<Rightarrow> string" where
  "trim s = rev (dropWhile is_space (rev (dropWhile is_space s)))"

text \<open>
  \<^verbatim>\<open>x || d\<close> on a number that may be undefined: undefined and \<open>0\<close> are falsy.
  On a string that may be undefined or null: these and the empty string are falsy.
\<close>

definition num_or :: "int option \<Rightarrow> int \<Rightarrow> int" where
  "num_or x d = (case x of None \<Rightarrow> d | Some n \<Rightarrow> if n = 0 then d else n)"

definition str_or_null :: "string option \<Rightarrow> string option" where
  "str_or_null x = (case x of None \<Rightarrow> None | Some s \<Rightarrow> if s = [] then None else Some s)"

definition str_or_empty :: "string option \<Rightarrow> string" where
  "str_or_empty x = (case x of None \<Rightarrow> [] | Some s \<Rightarrow> s)"

section \<open>upsertConversation and needsIndexing\<close>

text \<open>
  The conversation object handed to \<^verbatim>\<open>upsertConversation\<close>. A field the code reads with
  \<^verbatim>\<open>?.\<close> or guards with \<^verbatim>\<open>||\<close> may be absent. \<open>lastModified\<close> and \<open>created\<close> hold
  the \<^verbatim>\<open>getTime()\<close> of the Date. \<open>tools\<close> lists \<^verbatim>\<open>Object.entries(toolUsage.tools)\<close>.
\<close>

record token_usage =
  tu_total :: int
  tu_input :: int
  tu_output :: int

record tool_usage_info =
  tools_total :: int
  tools :: "((string \<times> int) list) option"

record conversation =
  id_of :: string
  filePath :: string
  filename :: string
  project :: "string option"
  messageCount :: "int option"
  fileSize :: "int option"
  lastModified :: "int option"
  created :: "int option"
  tokenUsage :: "token_usage option"
  primaryModel :: "string option"
  toolUsage :: "tool_usage_info option"
  isSubagent :: bool
  parentId :: "string option"
  cwd :: "string option"

text \<open>
  \<^verbatim>\<open>INSERT OR REPLACE INTO conversations\<close>: \<open>id\<close> is the primary key and \<open>file_path\<close> is
  unique, so every row that has the new id or the new path is deleted (with its tool rows,
  by the cascade) before the new row is inserted.
\<close>

definition replace_conversation :: "conv_row \<Rightarrow> database \<Rightarrow> database" where
  "replace_conversation row db =
     (let gone = filter (\<lambda>r. c_id r = c_id row \<or> c_file_path r = c_file_path row) (conversations db);
          kept = filter (\<lambda>r. \<not> (c_id r = c_id row \<or> c_file_path r = c_file_path row)) (conversations db)
      in db\<lparr>conversations := kept @ [row],
             tool_usage := filter (\<lambda>t. t_conversation_id t \<notin> c_id ` set gone) (tool_usage db)\<rparr>)"

text \<open>\<^verbatim>\<open>INSERT INTO conversation_fts (conversation_id, content, project) VALUES (?, ?, ?)\<close>\<close>

definition insert_fts :: "fts_row \<Rightarrow> database \<Rightarrow> database" where
  "insert_fts f db = db\<lparr>conversation_fts := conversation_fts db @ [f]\<rparr>"

text \<open>\<^verbatim>\<open>INSERT OR REPLACE INTO file_index\<close>: \<open>file_path\<close> is the primary key.\<close>

definition replace_file_index :: "file_row \<Rightarrow> database \<Rightarrow> database" where
  "replace_file_index f db =
     db\<lparr>file_index := filter (\<lambda>g. fi_file_path g \<noteq> fi_file_path f) (file_index db) @ [f]\<rparr>"

text \<open>\<^verbatim>\<open>INSERT OR REPLACE INTO tool_usage\<close>: \<open>(conversation_id, tool_name)\<close> is unique.\<close>

definition replace_tool :: "tool_row \<Rightarrow> database \<Rightarrow> database" where
  "replace_tool t db =
     db\<lparr>tool_usage :=
          filter (\<lambda>u. \<not> (t_conversation_id u = t_conversation_id t \<and> t_tool_name u = t_tool_name t))
            (tool_usage db) @ [t]\<rparr>"

definition conversation_row :: "int \<Rightarrow> conversation \<Rightarrow> conv_row" where
  "conversation_row now conv =
     \<lparr>c_id = id_of conv,
      c_file_path = filePath conv,
      c_filename = filename conv,
      c_project = str_or_null (project conv),
      c_message_count = num_or (messageCount conv) 0,
      c_file_size = num_or (fileSize conv) 0,
      c_last_modified = num_or (lastModified conv) now,
      c_created = num_or (created conv) now,
      c_tokens_total = num_or (map_option tu_total (tokenUsage conv)) 0,
      c_tokens_input = num_or (map_option tu_input (tokenUsage conv)) 0,
      c_tokens_output = num_or (map_option tu_output (tokenUsage conv)) 0,
      c_primary_model = str_or_null (primaryModel conv),
      c_indexed_at = now,
      c_is_subagent = Some (if isSubagent conv then 1 else 0),
      c_parent_id = str_or_null (parentId conv),
      c_cwd = str_or_null (cwd conv)\<rparr>"

text \<open>
  \<^verbatim>\<open>upsertConversation(conversation, searchableContent)\<close>; \<open>now\<close> is what \<^verbatim>\<open>Date.now()\<close>
  returned. The statements run in the order of the transaction body.
\<close>

definition upsertConversation :: "int \<Rightarrow> conversation \<Rightarrow> string \<Rightarrow> database \<Rightarrow> database" where
  "upsertConversation now conv searchableContent db =
     (let db1 = replace_conversation (conversation_row now conv) db;
          db2 = delete_fts (id_of conv) db1;
          db3 = (if trim searchableContent \<noteq> []
                 then insert_fts \<lparr>fts_conversation_id = id_of conv,
                                  fts_content = searchableContent,
                                  fts_project = str_or_empty (str_or_null (project conv))\<rparr> db2
                 else db2);
          db4 = replace_file_index \<lparr>fi_file_path = filePath conv,
                                    fi_mtime = num_or (lastModified conv) now,
                                    fi_size = num_or (fileSize conv) 0,
                                    fi_indexed_at = now\<rparr> db3;
          db5 = delete_tools (id_of conv) db4
      in case toolUsage conv of
           None \<Rightarrow> db5
         | Some tu \<Rightarrow>
             (case tools tu of
                None \<Rightarrow> db5
              | Some entries \<Rightarrow>
                  fold (\<lambda>(toolName, count).
                         replace_tool \<lparr>t_conversation_id = id_of conv,
                                       t_tool_name = toolName,
                                       t_call_count = count\<rparr>) entries db5))"

text \<open>\<^verbatim>\<open>needsIndexing(filePath, mtime, size)\<close>\<close>

definition needsIndexing :: "database \<Rightarrow> string \<Rightarrow> int \<Rightarrow> int \<Rightarrow> bool" where
  "needsIndexing db path mtime sz =
     (case find (\<lambda>f. fi_file_path f = path) (file_index db) of
        None \<Rightarrow> True
      | Some row \<Rightarrow> fi_mtime row \<noteq> mtime \<or> fi_size row \<noteq> sz)"

text \<open>
  \<^verbatim>\<open>getIndexedFilePaths()\<close>: a Set keeps its members in insertion order, once each. The
  rows are taken in the order of the table; SQLite may answer in the order of the paths
  instead. The order fixes only the order in which \<^verbatim>\<open>runFullIndex\<close> removes files.
\<close>

definition getIndexedFilePaths :: "database \<Rightarrow> string list" where
  "getIndexedFilePaths db = rev (remdups (rev (map fi_file_path (file_index db))))"

section \<open>Listing and search\<close>

text \<open>
  The options object of \<^verbatim>\<open>getConversations\<close> and of the two search functions. A field
  that is \<open>None\<close> is undefined and takes the dflt of the destructuring pattern.
\<close>

record options =
  limit :: "int option"
  offset :: "int option"
  sortBy :: "string option"
  sortOrder :: "string option"
  project_filter :: "string option"
  includeSubagents :: "bool option"

definition dflt :: "'a \<Rightarrow> 'a option \<Rightarrow> 'a" where
  "dflt d x = (case x of None \<Rightarrow> d | Some v \<Rightarrow> v)"

text \<open>\<^verbatim>\<open>toUpperCase\<close> on the letters a to z; no other code unit below 256 becomes A, S or C.\<close>

definition ascii_upper :: "char \<Rightarrow> char" where
  "ascii_upper c =
     (if (97::nat) \<le> of_char c \<and> of_char c \<le> (122::nat) then char_of (of_char c - (32::nat)) else c)"

text \<open>\<^verbatim>\<open>(is_subagent = 0 OR is_subagent IS NULL)\<close>\<close>

definition not_subagent :: "conv_row \<Rightarrow> bool" where
  "not_subagent r \<longleftrightarrow> c_is_subagent r = Some 0 \<or> c_is_subagent r = None"

definition sort_column :: "string \<Rightarrow> conv_row \<Rightarrow> int" where
  "sort_column name =
     (if name = ''created'' then c_created
      else if name = ''tokens_total'' then c_tokens_total
      else if name = ''message_count'' then c_message_count
      else if name = ''file_size'' then c_file_size
      else c_last_modified)"

text \<open>
  \<^verbatim>\<open>LIMIT ? OFFSET ?\<close>: a negative limit is no limit, a negative offset is no offset.
  \<^verbatim>\<open>ORDER BY\<close> is taken as a stable sort of the table: SQLite does not fix the order of
  rows with equal keys, nor which of them a limit keeps.
\<close>

definition limit_offset :: "int \<Rightarrow> int \<Rightarrow> 'a list \<Rightarrow> 'a list" where
  "limit_offset lim off xs =
     (let rest = drop (nat off) xs in if lim < 0 then rest else take (nat lim) rest)"

definition order_by :: "('a \<Rightarrow> int) \<Rightarrow> bool \<Rightarrow> 'a list \<Rightarrow> 'a list" where
  "order_by key asc xs = (if asc then sort_key key xs else sort_key (\<lambda>x. - key x) xs)"

text \<open>
  \<^verbatim>\<open>getConversations(options)\<close>. The result is the list of rows; \<^verbatim>\<open>_rowToConversation\<close>
  turns each row into an object field by field.
\<close>

definition getConversations :: "options \<Rightarrow> database \<Rightarrow> conv_row list" where
  "getConversations opts db =
     (let lim = dflt 100 (limit opts);
          off = dflt 0 (offset opts);
          sortBy' = dflt ''last_modified'' (sortBy opts);
          sortOrder' = dflt ''DESC'' (sortOrder opts);
          allowedSorts = [''last_modified'', ''created'', ''tokens_total'', ''message_count'', ''file_size''];
          safeSort = (if sortBy' \<in> set allowedSorts then sortBy' else ''last_modified'');
          asc = (map ascii_upper sortOrder' = ''ASC'');
          rows1 = (if dflt False (includeSubagents opts) then conversations db
                   else filter not_subagent (conversations db));
          rows2 = (case str_or_null (project_filter opts) of
                     None \<Rightarrow> rows1
                   | Some p \<Rightarrow> filter (\<lambda>r. c_project r = Some p) rows1)
      in limit_offset lim off (order_by (sort_column safeSort) asc rows2))"

subsection \<open>The query sanitizer\<close>

text \<open>\<^verbatim>\<open>.replace(/[":()^*\-+]/g, ' ')\<close>\<close>

definition special_chars :: "char list" where
  "special_chars = [CHR 0x22, CHR '':'', CHR ''('', CHR '')'', CHR ''^'', CHR ''*'', CHR ''-'', CHR ''+'']"

definition replace_special :: "string \<Rightarrow> string" where
  "replace_special q = map (\<lambda>c. if c \<in> set special_chars then CHR '' '' else c) q"

text \<open>
  \<^verbatim>\<open>.replace(/\b(AND|OR|NOT|NEAR)\b/gi, ' ')\<close>. \<^verbatim>\<open>\w\<close> is a letter, a digit or the
  underscore, and \<^verbatim>\<open>\b\<close> holds between a \<^verbatim>\<open>\w\<close> and a character that is not one (or an end
  of the string). The scan goes left to right; \<open>prev_word\<close> says whether the character before
  the current one is a \<^verbatim>\<open>\w\<close>, and \<open>skip\<close> counts the characters of a match still to pass.
  At each position the alternatives are tried in the order written.
\<close>

definition is_word :: "char \<Rightarrow> bool" where
  "is_word c \<longleftrightarrow>
     (let n = (of_char c :: nat)
      in (48 \<le> n \<and> n \<le> 57) \<or> (65 \<le> n \<and> n \<le> 90) \<or> (97 \<le> n \<and> n \<le> 122) \<or> n = 95)"

definition matches_op :: "string \<Rightarrow> string \<Rightarrow> bool" where
  "matches_op op s \<longleftrightarrow>
     map ascii_upper (take (length op) s) = op \<and>
     (case drop (length op) s of [] \<Rightarrow> True | d # _ \<Rightarrow> \<not> is_word d)"

definition operators :: "string list" where
  "operators = [''AND'', ''OR'', ''NOT'', ''NEAR'']"

definition op_match :: "string \<Rightarrow> nat option" where
  "op_match s = map_option length (find (\<lambda>op. matches_op op s) operators)"

fun strip_ops :: "bool \<Rightarrow> nat \<Rightarrow> string \<Rightarrow> string" where
  "strip_ops prev_word skip [] = []"
| "strip_ops prev_word (Suc skip) (c # cs) = strip_ops (is_word c) skip cs"
| "strip_ops prev_word 0 (c # cs) =
     (case (if prev_word then None else op_match (c # cs)) of
        Some n \<Rightarrow> CHR '' '' # strip_ops (is_word c) (n - 1) cs
      | None \<Rightarrow> c # strip_ops (is_word c) 0 cs)"

text \<open>\<^verbatim>\<open>.replace(/\s+/g, ' ')\<close>; \<open>in_run\<close> says whether the previous character was white space.\<close>

fun collapse_ws :: "bool \<Rightarrow> string \<Rightarrow> string" where
  "collapse_ws in_run [] = []"
| "collapse_ws in_run (c # cs) =
     (if is_space c then (if in_run then collapse_ws True cs else CHR '' '' # collapse_ws True cs)
      else c # collapse_ws False cs)"

definition sanitized :: "string \<Rightarrow> string" where
  "sanitized query = trim (collapse_ws False (strip_ops False 0 (replace_special query)))"

text \<open>\<^verbatim>\<open>_escapeFtsQuery(query)\<close>: the empty string is falsy, so \<^verbatim>\<open>|| '*'\<close> replaces it.\<close>

definition escapeFtsQuery :: "string \<Rightarrow> string" where
  "escapeFtsQuery query = (if sanitized query = [] then ''*'' else sanitized query)"

subsection \<open>What the sanitizer's result is checked against\<close>

text \<open>
  A word is an operator when it is AND, OR, NOT or NEAR up to the case of its letters.
\<close>

definition is_operator :: "string \<Rightarrow> bool" where
  "is_operator w \<longleftrightarrow> map ascii_upper w \<in> set operators"

text \<open>
  Whether the pattern \<^verbatim>\<open>/\b(AND|OR|NOT|NEAR)\b/i\<close> matches somewhere in a string, the
  character before the string being a \<^verbatim>\<open>\w\<close> or not.
\<close>

fun has_op :: "bool \<Rightarrow> string \<Rightarrow> bool" where
  "has_op prev_word [] = False"
| "has_op prev_word (c # cs) = ((\<not> prev_word \<and> op_match (c # cs) \<noteq> None) \<or> has_op (is_word c) cs)"

text \<open>No two spaces side by side.\<close>

fun single_spaced :: "string \<Rightarrow> bool" where
  "single_spaced (a # b # cs) = (\<not> (a = CHR '' '' \<and> b = CHR '' '') \<and> single_spaced (b # cs))"
| "single_spaced cs = True"

text \<open>
  A query on which the sanitizer has nothing to do: none of the special characters, no match
  of the operator pattern, no white space but single spaces, and none at either end.
\<close>

definition clean_query :: "string \<Rightarrow> bool" where
  "clean_query q \<longleftrightarrow>
     set q \<inter> set special_chars = {} \<and> \<not> has_op False q \<and>
     list_all (\<lambda>c. is_space c \<longrightarrow> c = CHR '' '') q \<and> single_spaced q \<and>
     (q = [] \<or> (\<not> is_space (hd q) \<and> \<not> is_space (last q)))"

subsection \<open>The two search functions\<close>

text \<open>
  The FTS5 engine is outside the repository. \<open>engine q table\<close> is what the engine does with
  \<^verbatim>\<open>conversation_fts MATCH q\<close>: it throws (\<open>Inl\<close> the message), or it yields the matching
  rows of the table, each with its \<^verbatim>\<open>bm25\<close> score and its \<^verbatim>\<open>snippet\<close>.
\<close>

type_synonym 'r fts_engine = "string \<Rightarrow> fts_row list \<Rightarrow> string + (fts_row \<times> 'r \<times> string) list"

record 'r hit =
  hit_row :: conv_row
  relevance :: "'r option"
  snippet :: "string option"
  searchTerm :: "string option"

definition plain :: "conv_row \<Rightarrow> 'r hit" where
  "plain r = \<lparr>hit_row = r, relevance = None, snippet = None, searchTerm = None\<rparr>"

text \<open>
  \<^verbatim>\<open>FROM conversation_fts fts JOIN conversations c ON fts.conversation_id = c.id\<close> with the
  subagent filter, \<^verbatim>\<open>ORDER BY relevance LIMIT ? OFFSET ?\<close>.
\<close>

definition fts_join ::
  "bool \<Rightarrow> int \<Rightarrow> int \<Rightarrow> (fts_row \<times> ('r::linorder) \<times> string) list \<Rightarrow> database
     \<Rightarrow> (conv_row \<times> 'r \<times> string) list" where
  "fts_join inclSub lim off matches db =
     (let joined = concat (map (\<lambda>(f, rel, snip).
                       map (\<lambda>c. (c, rel, snip))
                         (filter (\<lambda>c. c_id c = fts_conversation_id f \<and> (inclSub \<or> not_subagent c))
                            (conversations db))) matches)
      in limit_offset lim off (sort_key (\<lambda>(c, rel, snip). rel) joined))"

definition blank_query :: "string \<Rightarrow> bool" where
  "blank_query query \<longleftrightarrow> query = [] \<or> trim query = []"

definition searchConversations ::
  "('r::linorder) fts_engine \<Rightarrow> string \<Rightarrow> options \<Rightarrow> database \<Rightarrow> 'r hit list" where
  "searchConversations engine query opts db =
     (if blank_query query then map plain (getConversations opts db)
      else case engine (escapeFtsQuery query) (conversation_fts db) of
             Inl err \<Rightarrow> map plain (getConversations opts db)
           | Inr matches \<Rightarrow>
               map (\<lambda>(c, rel, snip). (plain c)\<lparr>relevance := Some rel\<rparr>)
                 (fts_join (dflt False (includeSubagents opts)) (dflt 50 (limit opts))
                    (dflt 0 (offset opts)) matches db))"

definition searchConversationsWithSnippets ::
  "('r::linorder) fts_engine \<Rightarrow> string \<Rightarrow> options \<Rightarrow> database \<Rightarrow> 'r hit list" where
  "searchConversationsWithSnippets engine query opts db =
     (if blank_query query then []
      else case engine (escapeFtsQuery query) (conversation_fts db) of
             Inl err \<Rightarrow> searchConversations engine query opts db
           | Inr matches \<Rightarrow>
               map (\<lambda>(c, rel, snip).
                      \<lparr>hit_row = c, relevance = Some rel, snippet = Some snip, searchTerm = Some query\<rparr>)
                 (fts_join (dflt False (includeSubagents opts)) (dflt 50 (limit opts))
                    (dflt 0 (offset opts)) matches db))"

subsection \<open>The page of a listing\<close>

text \<open>
  The rows that the listing may return for the given options, and the number of rows on a
  page when \<open>avail\<close> rows are left after the offset.
\<close>

definition listed :: "options \<Rightarrow> conv_row \<Rightarrow> bool" where
  "listed opts r \<longleftrightarrow>
     (includeSubagents opts = Some True \<or> c_is_subagent r = Some 0 \<or> c_is_subagent r = None) \<and>
     (case project_filter opts of
        None \<Rightarrow> True
      | Some p \<Rightarrow> p = [] \<or> c_project r = Some p)"

definition page_size :: "options \<Rightarrow> nat \<Rightarrow> nat" where
  "page_size opts avail =
     (case limit opts of
        None \<Rightarrow> min 100 avail
      | Some n \<Rightarrow> if n < 0 then avail else min (nat n) avail)"

definition page_skip :: "options \<Rightarrow> nat" where
  "page_skip opts = (case offset opts of None \<Rightarrow> 0 | Some k \<Rightarrow> nat k)"

section \<open>Paths\<close>

text \<open>\<^verbatim>\<open>s.split(sep)\<close> for a one-character separator: the empty string gives one empty part.\<close>

fun split_on :: "char \<Rightarrow> string \<Rightarrow> string list" where
  "split_on sep [] = [[]]"
| "split_on sep (c # cs) =
     (if c = sep then [] # split_on sep cs
      else (case split_on sep cs of
              [] \<Rightarrow> [[c]]
            | part # parts \<Rightarrow> (c # part) # parts))"

text \<open>\<^verbatim>\<open>xs.indexOf(x)\<close>: the first index, \<open>None\<close> for \<open>-1\<close>.\<close>

fun index_of :: "'a \<Rightarrow> 'a list \<Rightarrow> nat option" where
  "index_of x [] = None"
| "index_of x (y # ys) = (if x = y then Some 0 else map_option Suc (index_of x ys))"

text \<open>
  \<^verbatim>\<open>path.basename(p)\<close> of Node on POSIX: trailing slashes are dropped, then the part after
  the last slash is taken; \<^verbatim>\<open>'/'\<close> and the empty path give the empty string.
\<close>

definition basename :: "string \<Rightarrow> string" where
  "basename p =
     rev (takeWhile (\<lambda>c. c \<noteq> CHR ''/'') (dropWhile (\<lambda>c. c = CHR ''/'') (rev p)))"

text \<open>\<^verbatim>\<open>s.replace(pat, '')\<close> with a string pattern: the first occurrence is removed.\<close>

fun remove_first :: "string \<Rightarrow> string \<Rightarrow> string" where
  "remove_first pat [] = []"
| "remove_first pat (c # cs) =
     (if take (length pat) (c # cs) = pat then drop (length pat) (c # cs)
      else c # remove_first pat cs)"

section \<open>resolveEncodedProjectNames\<close>

text \<open>
  The encoded folder of a row: the part after the first part named \<open>projects\<close>. A row without
  one (or with nothing after it) is skipped by \<^verbatim>\<open>continue\<close>.
\<close>

definition encodedFolder :: "string \<Rightarrow> string option" where
  "encodedFolder file_path =
     (let pathParts = split_on CHR ''/'' file_path
      in case index_of ''projects'' pathParts of
           None \<Rightarrow> None
         | Some projectsIdx \<Rightarrow>
             if length pathParts \<le> projectsIdx + 1 then None
             else Some (pathParts ! (projectsIdx + 1)))"

text \<open>
  \<open>folderData\<close> is a \<^verbatim>\<open>Map\<close>, which iterates in the order of first insertion: a list of
  keys with their values. Each value holds the rows of the folder in the order read and the Set
  of their truthy \<open>cwd\<close>s, again in the order of first insertion.
\<close>

type_synonym folder_data = "(string \<times> conv_row list \<times> string list) list"

definition folder_get :: "folder_data \<Rightarrow> string \<Rightarrow> conv_row list \<times> string list" where
  "folder_get fd k = (case map_of fd k of None \<Rightarrow> ([], []) | Some d \<Rightarrow> d)"

definition folder_set :: "string \<Rightarrow> conv_row list \<times> string list \<Rightarrow> folder_data \<Rightarrow> folder_data" where
  "folder_set k d fd =
     (if k \<in> fst ` set fd then map (\<lambda>(k', d'). if k' = k then (k', d) else (k', d')) fd
      else fd @ [(k, d)])"

definition add_conversation :: "conv_row \<Rightarrow> folder_data \<Rightarrow> folder_data" where
  "add_conversation conv fd =
     (case encodedFolder (c_file_path conv) of
        None \<Rightarrow> fd
      | Some folder \<Rightarrow>
          (let (convs, cwds) = folder_get fd folder;
               cwds' = (case str_or_null (c_cwd conv) of
                          None \<Rightarrow> cwds
                        | Some d \<Rightarrow> if d \<in> set cwds then cwds else cwds @ [d])
           in folder_set folder (convs @ [conv], cwds') fd))"

definition folderData :: "conv_row list \<Rightarrow> folder_data" where
  "folderData allConversations = fold add_conversation allConversations []"

text \<open>
  \<^verbatim>\<open>UPDATE conversations SET project = ? WHERE id = ?\<close> and
  \<^verbatim>\<open>UPDATE conversation_fts SET project = ? WHERE conversation_id = ?\<close>
\<close>

definition update_project :: "string \<Rightarrow> string \<Rightarrow> database \<Rightarrow> database" where
  "update_project name cid db =
     db\<lparr>conversations :=
          map (\<lambda>r. if c_id r = cid then r\<lparr>c_project := Some name\<rparr> else r) (conversations db)\<rparr>"

definition update_fts_project :: "string \<Rightarrow> string \<Rightarrow> database \<Rightarrow> database" where
  "update_fts_project name cid db =
     db\<lparr>conversation_fts :=
          map (\<lambda>f. if fts_conversation_id f = cid then f\<lparr>fts_project := name\<rparr> else f)
            (conversation_fts db)\<rparr>"

text \<open>
  The state of the transaction body: the database, \<open>resolvedCount\<close> and \<open>foldersResolved\<close>.
  \<open>cwdArray.sort((a, b) => a.length - b.length)\<close> is a stable sort by length. The loop that
  tests \<^verbatim>\<open>startsWith\<close> changes nothing and is left out.
\<close>

record resolve_state =
  rs_db :: database
  resolvedCount :: nat
  foldersResolved :: nat

definition canonicalName :: "string list \<Rightarrow> string option" where
  "canonicalName cwds =
     (case sort_key length cwds of
        [] \<Rightarrow> None
      | rootCwd # _ \<Rightarrow> if basename rootCwd = [] then None else Some (basename rootCwd))"

definition resolve_conversation :: "string \<Rightarrow> conv_row \<Rightarrow> resolve_state \<Rightarrow> resolve_state" where
  "resolve_conversation name conv st =
     (if c_project conv \<noteq> Some name
      then st\<lparr>rs_db := update_fts_project name (c_id conv) (update_project name (c_id conv) (rs_db st)),
              resolvedCount := resolvedCount st + 1\<rparr>
      else st)"

definition resolve_folder ::
  "string \<times> conv_row list \<times> string list \<Rightarrow> resolve_state \<Rightarrow> resolve_state" where
  "resolve_folder entry st =
     (case entry of (folder, convs, cwds) \<Rightarrow>
        (case canonicalName cwds of
           None \<Rightarrow> st
         | Some name \<Rightarrow>
             (let st' = fold (resolve_conversation name) convs st
              in if \<exists>conv \<in> set convs. c_project conv \<noteq> Some name
                 then st'\<lparr>foldersResolved := foldersResolved st' + 1\<rparr> else st')))"

definition resolveEncodedProjectNames :: "database \<Rightarrow> resolve_state" where
  "resolveEncodedProjectNames db =
     fold resolve_folder (folderData (conversations db))
       \<lparr>rs_db = db, resolvedCount = 0, foldersResolved = 0\<rparr>"

subsection \<open>The canonical name of a folder\<close>

text \<open>
  The encoded folder of a row, the sessions of an encoded folder, their non-empty working
  directories in row order, and the canonical name of the folder: the basename of the first
  working directory of least length, when there is one and its basename is not empty.
\<close>

definition row_folder :: "conv_row \<Rightarrow> string option" where
  "row_folder r = encodedFolder (c_file_path r)"

definition group_rows :: "database \<Rightarrow> string \<Rightarrow> conv_row list" where
  "group_rows db folder =
     filter (\<lambda>r. encodedFolder (c_file_path r) = Some folder) (conversations db)"

definition group_cwds :: "database \<Rightarrow> string \<Rightarrow> string list" where
  "group_cwds db folder = List.map_filter (\<lambda>r. str_or_null (c_cwd r)) (group_rows db folder)"

definition canonical_of :: "database \<Rightarrow> string \<Rightarrow> string option" where
  "canonical_of db folder =
     (if group_cwds db folder = [] then None
      else if basename (arg_min_list length (group_cwds db folder)) = [] then None
      else Some (basename (arg_min_list length (group_cwds db folder))))"


definition resolved_row :: "database \<Rightarrow> conv_row \<Rightarrow> conv_row" where
  "resolved_row db r =
     (case row_folder r of
        None \<Rightarrow> r
      | Some folder \<Rightarrow>
          (case canonical_of db folder of
             None \<Rightarrow> r
           | Some name \<Rightarrow> r\<lparr>c_project := Some name\<rparr>))"



definition upd_ids :: "string \<Rightarrow> conv_row list \<Rightarrow> string set" where
  "upd_ids name convs = c_id ` {conv \<in> set convs. c_project conv \<noteq> Some name}"



definition set_project :: "string \<Rightarrow> conv_row \<Rightarrow> conv_row" where
  "set_project name r = r\<lparr>c_project := Some name\<rparr>"

definition set_fts_project :: "string \<Rightarrow> fts_row \<Rightarrow> fts_row" where
  "set_fts_project name f = f\<lparr>fts_project := name\<rparr>"

section \<open>The indexer\<close>

text \<open>\<^verbatim>\<open>_detectSubagent(filePath)\<close>; the warning about the shape of the parent id is only logged.\<close>

definition detectSubagent :: "string \<Rightarrow> bool \<times> string option" where
  "detectSubagent path =
     (let pathParts = split_on CHR ''/'' path
      in case index_of ''subagents'' pathParts of
           None \<Rightarrow> (False, None)
         | Some subagentIdx \<Rightarrow>
             if subagentIdx > 0 then (True, Some (pathParts ! (subagentIdx - 1)))
             else (False, None))"

text \<open>\<^verbatim>\<open>_extractProjectFromPath(filePath)\<close>; \<open>projectsDir\<close> is the field of the indexer.\<close>

definition extractProjectFromPath :: "string \<Rightarrow> string \<Rightarrow> string" where
  "extractProjectFromPath projectsDir path =
     (case filter (\<lambda>part. part \<noteq> []) (split_on CHR ''/'' (remove_first projectsDir path)) of
        [] \<Rightarrow> ''Unknown''
      | encoded # _ \<Rightarrow> (case encoded of
                          [] \<Rightarrow> encoded
                        | c # rest \<Rightarrow> if c = CHR ''-'' then rest else encoded))"

text \<open>
  What \<^verbatim>\<open>fs.stat\<close> returns, and what \<^verbatim>\<open>_parseJsonlStreaming\<close> resolves with (the times are
  the \<^verbatim>\<open>getTime()\<close> of the Dates).
\<close>

record file_stats =
  st_mtime :: int
  st_size :: int
  st_birthtime :: int

record parse_result =
  pr_messageCount :: int
  pr_tokenUsage :: token_usage
  pr_primaryModel :: "string option"
  pr_toolUsage :: tool_usage_info
  pr_searchableContent :: string
  pr_cwd :: "string option"

text \<open>\<^verbatim>\<open>_indexFile(filePath, fileStats)\<close>, after the parser has resolved with \<open>parseResult\<close>.\<close>

definition build_conversation :: "string \<Rightarrow> string \<Rightarrow> file_stats \<Rightarrow> parse_result \<Rightarrow> conversation" where
  "build_conversation projectsDir path fileStats parseResult =
     (let name = basename path;
          (isSub, parent) = detectSubagent path;
          baseId = remove_first ''.jsonl'' name;
          ident = (case str_or_null parent of
                     Some pid \<Rightarrow> if isSub then pid @ ''_'' @ baseId else baseId
                   | None \<Rightarrow> baseId);
          proj = (case str_or_null (pr_cwd parseResult) of
                    Some d \<Rightarrow> basename d
                  | None \<Rightarrow> extractProjectFromPath projectsDir path)
      in \<lparr>id_of = ident,
          filePath = path,
          filename = name,
          project = Some proj,
          messageCount = Some (pr_messageCount parseResult),
          fileSize = Some (st_size fileStats),
          lastModified = Some (st_mtime fileStats),
          created = Some (st_birthtime fileStats),
          tokenUsage = Some (pr_tokenUsage parseResult),
          primaryModel = pr_primaryModel parseResult,
          toolUsage = Some (pr_toolUsage parseResult),
          isSubagent = isSub,
          parentId = parent,
          cwd = pr_cwd parseResult\<rparr>)"

definition indexFile ::
  "int \<Rightarrow> string \<Rightarrow> string \<Rightarrow> file_stats \<Rightarrow> parse_result \<Rightarrow> database \<Rightarrow> database" where
  "indexFile now projectsDir path fileStats parseResult db =
     upsertConversation now (build_conversation projectsDir path fileStats parseResult)
       (pr_searchableContent parseResult) db"

text \<open>
  One file as \<^verbatim>\<open>runFullIndex\<close> meets it: its path, what \<^verbatim>\<open>fs.stat\<close> gives (\<open>None\<close> when it
  throws), what the parser gives (\<open>None\<close> when the read fails and the promise rejects), and
  what \<^verbatim>\<open>Date.now()\<close> returns when the file is stored.
\<close>

record file_entry =
  fe_path :: string
  fe_stat :: "file_stats option"
  fe_parse :: "parse_result option"
  fe_now :: int

record index_stats =
  filesScanned :: nat
  filesIndexed :: nat
  filesSkipped :: nat
  filesRemoved :: nat
  errors :: nat
  projectNamesResolved :: "nat option"

record index_state =
  is_db :: database
  is_stats :: index_stats
  indexedPaths :: "string list"

text \<open>
  The body of the loop over the files. The batches of fifty only pace the progress output.
  A throw of \<^verbatim>\<open>fs.stat\<close> or of \<^verbatim>\<open>_indexFile\<close> is caught and counted in \<open>errors\<close>.
\<close>

definition process_file :: "string \<Rightarrow> file_entry \<Rightarrow> index_state \<Rightarrow> index_state" where
  "process_file projectsDir fe st =
     (case fe_stat fe of
        None \<Rightarrow> st\<lparr>is_stats := (is_stats st)\<lparr>errors := errors (is_stats st) + 1\<rparr>\<rparr>
      | Some fileStats \<Rightarrow>
          (let st1 = st\<lparr>indexedPaths := filter (\<lambda>p. p \<noteq> fe_path fe) (indexedPaths st)\<rparr>
           in if \<not> needsIndexing (is_db st1) (fe_path fe) (st_mtime fileStats) (st_size fileStats)
              then st1\<lparr>is_stats := (is_stats st1)\<lparr>filesSkipped := filesSkipped (is_stats st1) + 1\<rparr>\<rparr>
              else (case fe_parse fe of
                      None \<Rightarrow> st1\<lparr>is_stats := (is_stats st1)\<lparr>errors := errors (is_stats st1) + 1\<rparr>\<rparr>
                    | Some parseResult \<Rightarrow>
                        st1\<lparr>is_db := indexFile (fe_now fe) projectsDir (fe_path fe) fileStats
                                        parseResult (is_db st1),
                            is_stats := (is_stats st1)\<lparr>filesIndexed := filesIndexed (is_stats st1) + 1\<rparr>\<rparr>)))"

definition remove_deleted :: "string \<Rightarrow> index_state \<Rightarrow> index_state" where
  "remove_deleted deletedPath st =
     st\<lparr>is_db := removeFile deletedPath (is_db st),
        is_stats := (is_stats st)\<lparr>filesRemoved := filesRemoved (is_stats st) + 1\<rparr>\<rparr>"

text \<open>\<^verbatim>\<open>runFullIndex()\<close> over the files that \<^verbatim>\<open>_findJsonlFiles\<close> found.\<close>

definition runFullIndex :: "string \<Rightarrow> file_entry list \<Rightarrow> database \<Rightarrow> database \<times> index_stats" where
  "runFullIndex projectsDir files db =
     (let st0 = \<lparr>is_db = db,
                 is_stats = \<lparr>filesScanned = length files, filesIndexed = 0, filesSkipped = 0,
                             filesRemoved = 0, errors = 0, projectNamesResolved = None\<rparr>,
                 indexedPaths = getIndexedFilePaths db\<rparr>;
          st1 = fold (process_file projectsDir) files st0;
          st2 = fold remove_deleted (indexedPaths st1) st1;
          resolveResult = resolveEncodedProjectNames (is_db st2);
          stats = (if resolvedCount resolveResult > 0
                   then (is_stats st2)\<lparr>projectNamesResolved := Some (resolvedCount resolveResult)\<rparr>
                   else is_stats st2)
      in (rs_db resolveResult, stats))"

section \<open>The parser: message count and token usage\<close>

text \<open>
  What \<^verbatim>\<open>JSON.parse\<close> returns. \<open>JNum n\<close> is a number that is the integer \<open>n\<close>, \<open>JFrac\<close> one
  that is not an integer (its value plays no part below: it is truthy, and a sum it enters
  is not followed). An object lists its own properties, each key once.
\<close>

datatype json =
  JNull | JBool bool | JNum int | JFrac | JStr string | JArr "json list"
  | JObj "(string \<times> json) list"

text \<open>A value read from a property may be undefined: \<open>None\<close>.\<close>

fun truthy :: "json option \<Rightarrow> bool" where
  "truthy None = False"
| "truthy (Some JNull) = False"
| "truthy (Some (JBool b)) = b"
| "truthy (Some (JNum n)) = (n \<noteq> 0)"
| "truthy (Some JFrac) = True"
| "truthy (Some (JStr s)) = (s \<noteq> [])"
| "truthy (Some (JArr xs)) = True"
| "truthy (Some (JObj kvs)) = True"

text \<open>
  \<open>property v k\<close> reads the property \<open>k\<close> (one of \<open>cwd\<close>, \<open>message\<close>, \<open>type\<close>, \<open>content\<close>,
  \<open>usage\<close>, \<open>text\<close>, \<open>input_tokens\<close>, \<open>output_tokens\<close>) of a value that is neither null
  nor undefined: only an object has such a property.
\<close>

fun property :: "json option \<Rightarrow> string \<Rightarrow> json option" where
  "property (Some (JObj kvs)) k = map_of kvs k"
| "property v k = None"

text \<open>
  A line of the file: blank after \<^verbatim>\<open>trim\<close>, rejected by \<^verbatim>\<open>JSON.parse\<close>, or parsed.
\<close>

datatype jline = Blank | Invalid | Parsed json

text \<open>
  Whether the conversion of a value to a string throws a TypeError, as \<^verbatim>\<open>join\<close> and \<^verbatim>\<open>+\<close>
  convert. A parsed value is never callable, so an object with an own property \<open>toString\<close>
  has no usable \<^verbatim>\<open>toString\<close>, and \<^verbatim>\<open>valueOf\<close> gives no primitive; every other object
  becomes \<^verbatim>\<open>[object Object]\<close>. An array joins its elements, converting those that are not
  null.
\<close>

fun to_string_throws :: "json \<Rightarrow> bool" where
  "to_string_throws (JObj kvs) = (map_of kvs ''toString'' \<noteq> None)"
| "to_string_throws (JArr xs) = list_ex to_string_throws xs"
| "to_string_throws v = False"

text \<open>
  Whether \<^verbatim>\<open>_extractTextContent(content)\<close> followed by \<^verbatim>\<open>content.slice(0, 2000)\<close> throws a
  TypeError. In an array, \<^verbatim>\<open>block.type\<close> throws on a null block, and \<^verbatim>\<open>join\<close> converts the
  truthy \<open>text\<close> of every block of type \<open>text\<close> to a string. For a single block of type
  \<open>text\<close> the value of \<^verbatim>\<open>content.text || ''\<close> is sliced: a string and an array have
  \<^verbatim>\<open>slice\<close>, a number, \<open>true\<close> and an object do not.
\<close>

definition text_block :: "json \<Rightarrow> bool" where
  "text_block block \<longleftrightarrow> property (Some block) ''type'' = Some (JStr ''text'')"

fun content_throws :: "json option \<Rightarrow> bool" where
  "content_throws (Some (JArr blocks)) =
     (JNull \<in> set blocks \<or>
      list_ex (\<lambda>block. text_block block \<and>
                 (case property (Some block) ''text'' of
                    None \<Rightarrow> False
                  | Some v \<Rightarrow> to_string_throws v)) blocks)"
| "content_throws (Some (JObj kvs)) =
     (text_block (JObj kvs) \<and>
      (case map_of kvs ''text'' of
         Some (JNum n) \<Rightarrow> n \<noteq> 0
       | Some JFrac \<Rightarrow> True
       | Some (JBool b) \<Rightarrow> b
       | Some (JObj _) \<Rightarrow> True
       | _ \<Rightarrow> False))"
| "content_throws v = False"

text \<open>
  A single block of type \<open>text\<close> whose \<open>text\<close> is an array puts the array's first 2000
  elements into \<^verbatim>\<open>contentParts\<close>; every other content puts a string there, or nothing.
  \<open>part_throws\<close> tells whether the \<^verbatim>\<open>contentParts.join\<close> of the \<^verbatim>\<open>'close'\<close> handler will throw
  on the part.
\<close>

fun part_throws :: "json option \<Rightarrow> bool" where
  "part_throws (Some (JObj kvs)) =
     (text_block (JObj kvs) \<and>
      (case map_of kvs ''text'' of
         Some (JArr xs) \<Rightarrow> list_ex to_string_throws (take 2000 xs)
       | _ \<Rightarrow> False))"
| "part_throws v = False"

text \<open>
  \<^verbatim>\<open>acc += v || 0\<close>. The accumulator is \<open>Some n\<close> while it is the number \<open>n\<close> and every sum so
  far was exact, which sums of integers are up to \<open>2 ^ 53\<close>; it is \<open>None\<close> once \<^verbatim>\<open>+\<close> has
  concatenated strings, met a fraction, or left that range. A falsy \<open>v\<close> adds \<open>0\<close>, a number
  adds itself, \<open>true\<close> adds \<open>1\<close>; a string, an array and an object make \<^verbatim>\<open>+\<close> concatenate,
  after a conversion to a string that may throw.
\<close>

definition exact :: "int \<Rightarrow> int option" where
  "exact n = (if \<bar>n\<bar> \<le> 9007199254740992 then Some n else None)"

fun added :: "json option \<Rightarrow> int option" where
  "added (Some (JNum n)) = exact n"
| "added (Some JFrac) = None"
| "added (Some (JBool True)) = Some 1"
| "added (Some (JStr (c # cs))) = None"
| "added (Some (JArr xs)) = None"
| "added (Some (JObj kvs)) = None"
| "added v = Some 0"

definition js_plus :: "int option \<Rightarrow> int option \<Rightarrow> int option" where
  "js_plus a b = (case (a, b) of (Some x, Some y) \<Rightarrow> exact (x + y) | _ \<Rightarrow> None)"

definition plus_throws :: "json option \<Rightarrow> bool" where
  "plus_throws v = (case v of None \<Rightarrow> False | Some x \<Rightarrow> to_string_throws x)"

text \<open>
  The fields of \<open>result\<close> that the claims read, and \<open>ps_join_throws\<close>: whether
  \<^verbatim>\<open>contentParts\<close> holds a part on which \<^verbatim>\<open>join\<close> throws.
\<close>

record parse_state =
  ps_messageCount :: int
  ps_input :: "int option"
  ps_output :: "int option"
  ps_total :: "int option"
  ps_cwd :: "json option"
  ps_join_throws :: bool

text \<open>
  The \<^verbatim>\<open>'line'\<close> handler. Everything after \<^verbatim>\<open>JSON.parse\<close> is inside the same
  \<^verbatim>\<open>try\<close>: a TypeError ends the handler where it is thrown and keeps what was written to
  \<open>result\<close> before. \<^verbatim>\<open>item.cwd\<close> throws when the line is the JSON \<open>null\<close>. The steps after
  the token step (model and tool counts) write to none of the fields above.
\<close>

definition set_cwd :: "json \<Rightarrow> parse_state \<Rightarrow> parse_state" where
  "set_cwd item st =
     (if truthy (ps_cwd st) then st
      else if truthy (property (Some item) ''cwd'') then st\<lparr>ps_cwd := property (Some item) ''cwd''\<rparr>
      else if truthy (property (Some item) ''message'')
              \<and> truthy (property (property (Some item) ''message'') ''cwd'')
           then st\<lparr>ps_cwd := property (property (Some item) ''message'') ''cwd''\<rparr>
      else st)"

text \<open>
  The two \<^verbatim>\<open>+=\<close> of the token step, in order: when the first throws the second is not
  reached.
\<close>

definition add_usage :: "json option \<Rightarrow> parse_state \<Rightarrow> parse_state" where
  "add_usage usage st =
     (if plus_throws (property usage ''input_tokens'') then st
      else (let st1 = st\<lparr>ps_input := js_plus (ps_input st) (added (property usage ''input_tokens''))\<rparr>
            in if plus_throws (property usage ''output_tokens'') then st1
               else st1\<lparr>ps_output :=
                          js_plus (ps_output st1) (added (property usage ''output_tokens''))\<rparr>))"

definition on_line :: "jline \<Rightarrow> parse_state \<Rightarrow> parse_state" where
  "on_line l st =
     (case l of
        Blank \<Rightarrow> st
      | Invalid \<Rightarrow> st
      | Parsed JNull \<Rightarrow> st
      | Parsed item \<Rightarrow>
          (let st1 = set_cwd item st;
               message = property (Some item) ''message'';
               kind = property (Some item) ''type''
           in if truthy message \<and> (kind = Some (JStr ''assistant'') \<or> kind = Some (JStr ''user''))
              then (let st2 = st1\<lparr>ps_messageCount := ps_messageCount st1 + 1\<rparr>
                    in if content_throws (property message ''content'') then st2
                       else (let st3 = st2\<lparr>ps_join_throws :=
                                            ps_join_throws st2 \<or>
                                            part_throws (property message ''content'')\<rparr>
                             in if kind = Some (JStr ''assistant'') \<and> truthy (property message ''usage'')
                                then add_usage (property message ''usage'') st3
                                else st3))
              else st1))"

text \<open>
  The \<^verbatim>\<open>'close'\<close> handler computes the total, then joins the content parts; it has no
  \<^verbatim>\<open>try\<close>, so when the join throws the promise is never resolved: \<open>None\<close>.
\<close>

definition on_close :: "parse_state \<Rightarrow> parse_state option" where
  "on_close st =
     (let st1 = st\<lparr>ps_total := js_plus (ps_input st) (ps_output st)\<rparr>
      in if ps_join_throws st1 then None else Some st1)"

definition parseJsonlStreaming :: "jline list \<Rightarrow> parse_state option" where
  "parseJsonlStreaming lines =
     on_close (fold on_line lines
       \<lparr>ps_messageCount = 0, ps_input = Some 0, ps_output = Some 0, ps_total = Some 0,
        ps_cwd = None, ps_join_throws = False\<rparr>)"

subsection \<open>The token sums in the words of the specification\<close>

text \<open>
  A message line of type assistant, its usage object, and what the line adds for the key \<open>k\<close>
  when \<^verbatim>\<open>message.usage\<close> is read as the specification says: the number at \<open>k\<close>, zero when
  it is missing.
\<close>

definition assistant_message :: "json \<Rightarrow> bool" where
  "assistant_message item \<longleftrightarrow>
     truthy (property (Some item) ''message'') \<and>
     property (Some item) ''type'' = Some (JStr ''assistant'')"

definition message_usage :: "json \<Rightarrow> json option" where
  "message_usage item = property (property (Some item) ''message'') ''usage''"

definition message_content :: "json \<Rightarrow> json option" where
  "message_content item = property (property (Some item) ''message'') ''content''"

definition claimed_tokens :: "string \<Rightarrow> jline \<Rightarrow> int" where
  "claimed_tokens k l =
     (case l of
        Parsed item \<Rightarrow>
          if assistant_message item
          then (case added (property (message_usage item) k) of None \<Rightarrow> 0 | Some n \<Rightarrow> n)
          else 0
      | _ \<Rightarrow> 0)"

section \<open>Grouping subagents under their parents\<close>

text \<open>
  The conversation objects of the HTTP layer, with the fields that
  \<^verbatim>\<open>_groupSubagentsUnderParents\<close> reads or writes; every other field rides along in the
  extension of the record. \<open>g_lastModified\<close> is the time that \<^verbatim>\<open>new Date(c.lastModified)\<close>
  denotes. A missing \<open>isStub\<close> is \<open>False\<close>, a missing \<open>subagentCount\<close> is \<open>None\<close>.
\<close>

record gconv =
  g_id :: string
  g_lastModified :: int
  g_isSubagent :: bool
  g_parentId :: "string option"
  g_subagentCount :: "int option"
  g_isStub :: bool

text \<open>\<^verbatim>\<open>xs.sort((a, b) => new Date(b.lastModified) - new Date(a.lastModified))\<close>: stable.\<close>

definition sort_recent :: "'a gconv_scheme list \<Rightarrow> 'a gconv_scheme list" where
  "sort_recent xs = sort_key (\<lambda>c. - g_lastModified c) xs"

text \<open>
  \<^verbatim>\<open>subagentCounts\<close> is a plain object used as a map from parent ids to counts; an id that
  names a member of \<^verbatim>\<open>Object.prototype\<close> (such as \<open>constructor\<close>) is not followed here.
\<close>

definition subagentCounts :: "'a gconv_scheme list \<Rightarrow> string \<Rightarrow> int option" where
  "subagentCounts subagents pid =
     (let n = length (filter (\<lambda>s. str_or_null (g_parentId s) = Some pid) subagents)
      in if n = 0 then None else Some (int n))"

definition childSubagents :: "'a gconv_scheme list \<Rightarrow> 'a gconv_scheme \<Rightarrow> 'a gconv_scheme list" where
  "childSubagents subagents parent =
     sort_recent (filter (\<lambda>s. g_parentId s = Some (g_id parent)) subagents)"

text \<open>
  \<open>backend\<close> is \<^verbatim>\<open>this.useDatabaseBackend && this.databaseBackend.isInitialized\<close>, and
  \<open>getConversation\<close> is the lookup of the backend by id.
\<close>

definition allParents ::
  "bool \<Rightarrow> (string \<Rightarrow> 'a gconv_scheme option) \<Rightarrow> 'a gconv_scheme list \<Rightarrow> 'a gconv_scheme list" where
  "allParents backend getConversation convs =
     (let parents = filter (\<lambda>c. \<not> g_isSubagent c) convs;
          subagents = filter g_isSubagent convs;
          subagentsNeedingStubs =
            filter (\<lambda>s. case str_or_null (g_parentId s) of
                           None \<Rightarrow> False
                         | Some pid \<Rightarrow> pid \<notin> set (map g_id parents)) subagents;
          parentIdsNeedingStubs =
            rev (remdups (rev (map (\<lambda>s. str_or_empty (g_parentId s)) subagentsNeedingStubs)));
          parentStubs =
            (if backend
             then concat (map (\<lambda>pid. case getConversation pid of
                                         None \<Rightarrow> []
                                       | Some parent \<Rightarrow>
                                           [parent\<lparr>g_isStub := True,
                                                   g_subagentCount :=
                                                     Some (num_or (subagentCounts subagents pid) 0)\<rparr>])
                           parentIdsNeedingStubs)
             else [])
      in sort_recent
           (map (\<lambda>parent. parent\<lparr>g_subagentCount :=
                    Some (num_or (subagentCounts subagents (g_id parent))
                            (num_or (g_subagentCount parent) 0))\<rparr>) parents
            @ parentStubs))"

definition orphanSubagents :: "'a gconv_scheme list \<Rightarrow> 'a gconv_scheme list \<Rightarrow> 'a gconv_scheme list" where
  "orphanSubagents parents subagents =
     filter (\<lambda>s. case str_or_null (g_parentId s) of
                    None \<Rightarrow> True
                  | Some pid \<Rightarrow> pid \<notin> set (map g_id parents)) subagents"

definition groupSubagentsUnderParents ::
  "bool \<Rightarrow> (string \<Rightarrow> 'a gconv_scheme option) \<Rightarrow> 'a gconv_scheme list \<Rightarrow> 'a gconv_scheme list" where
  "groupSubagentsUnderParents backend getConversation convs =
     (let subagents = filter g_isSubagent convs
      in if subagents = [] then convs
         else (let ps = allParents backend getConversation convs
               in concat (map (\<lambda>parent. parent # childSubagents subagents parent) ps)
                  @ orphanSubagents ps subagents))"

section \<open>Example data\<close>

text \<open>A small store and a few inputs, on which the theorems below are instantiated.\<close>

definition mk_row :: "string \<Rightarrow> string \<Rightarrow> string option \<Rightarrow> int \<Rightarrow> int option \<Rightarrow> string option \<Rightarrow> string option \<Rightarrow> conv_row" where
  "mk_row i path proj modified sub parent dir =
     \<lparr>c_id = i, c_file_path = path, c_filename = basename path, c_project = proj,
      c_message_count = 2, c_file_size = 100, c_last_modified = modified, c_created = 1000,
      c_tokens_total = 30, c_tokens_input = 10, c_tokens_output = 20,
      c_primary_model = None, c_indexed_at = 5000, c_is_subagent = sub,
      c_parent_id = parent, c_cwd = dir\<rparr>"

definition ex_parent :: conv_row where
  "ex_parent = mk_row ''p1'' ''/h/projects/-u-proj/p1.jsonl'' (Some ''proj'') 2000 (Some 0) None (Some ''/u/proj'')"

definition ex_child :: conv_row where
  "ex_child = mk_row ''p1_agent-1'' ''/h/projects/-u-proj/p1/subagents/agent-1.jsonl'' (Some ''src'')
                3000 (Some 1) (Some ''p1'') (Some ''/u/proj/src'')"

definition ex_db :: database where
  "ex_db =
     \<lparr>conversations = [ex_parent, ex_child],
      tool_usage = [\<lparr>t_conversation_id = ''p1'', t_tool_name = ''Read'', t_call_count = 2\<rparr>,
                    \<lparr>t_conversation_id = ''p1_agent-1'', t_tool_name = ''Bash'', t_call_count = 1\<rparr>],
      conversation_fts = [\<lparr>fts_conversation_id = ''p1'', fts_content = ''hello'', fts_project = ''proj''\<rparr>,
                          \<lparr>fts_conversation_id = ''p1_agent-1'', fts_content = ''world'', fts_project = ''src''\<rparr>],
      file_index = [\<lparr>fi_file_path = ''/h/projects/-u-proj/p1.jsonl'', fi_mtime = 2000, fi_size = 100, fi_indexed_at = 5000\<rparr>,
                    \<lparr>fi_file_path = ''/h/projects/-u-proj/p1/subagents/agent-1.jsonl'', fi_mtime = 3000, fi_size = 100, fi_indexed_at = 5000\<rparr>,
                    \<lparr>fi_file_path = ''/h/projects/-u-proj/gone.jsonl'', fi_mtime = 1, fi_size = 1, fi_indexed_at = 5000\<rparr>]\<rparr>"

definition ex_engine :: "int fts_engine" where
  "ex_engine q table = Inr (map (\<lambda>f. (f, 0, fts_content f)) table)"

definition no_options :: options where
  "no_options = \<lparr>limit = None, offset = None, sortBy = None, sortOrder = None,
                  project_filter = None, includeSubagents = None\<rparr>"

definition ex_conversation :: conversation where
  "ex_conversation =
     \<lparr>id_of = ''p1'', filePath = ''/h/projects/-u-proj/p1.jsonl'', filename = ''p1.jsonl'',
      project = Some ''proj'', messageCount = Some 4, fileSize = Some 120,
      lastModified = Some 2500, created = Some 1000,
      tokenUsage = Some \<lparr>tu_total = 30, tu_input = 10, tu_output = 20\<rparr>,
      primaryModel = None, toolUsage = Some \<lparr>tools_total = 1, tools = Some [(''Read'', 1)]\<rparr>,
      isSubagent = False, parentId = None, cwd = Some ''/u/proj''\<rparr>"

definition ex_p :: gconv where
  "ex_p = \<lparr>g_id = ''P'', g_lastModified = 10, g_isSubagent = False, g_parentId = None,
           g_subagentCount = None, g_isStub = False\<rparr>"

definition ex_s1 :: gconv where
  "ex_s1 = \<lparr>g_id = ''P_a'', g_lastModified = 1, g_isSubagent = True, g_parentId = Some ''P'',
            g_subagentCount = None, g_isStub = False\<rparr>"

definition ex_s2 :: gconv where
  "ex_s2 = \<lparr>g_id = ''P_b'', g_lastModified = 2, g_isSubagent = True, g_parentId = Some ''P'',
            g_subagentCount = None, g_isStub = False\<rparr>"

definition ex_line :: "json \<Rightarrow> int \<Rightarrow> int \<Rightarrow> jline" where
  "ex_line content i out =
     Parsed (JObj [(''type'', JStr ''assistant''),
                   (''message'', JObj [(''content'', content),
                                       (''usage'', JObj [(''input_tokens'', JNum i),
                                                         (''output_tokens'', JNum out)])])])"

definition ex_user_line :: jline where
  "ex_user_line =
     Parsed (JObj [(''type'', JStr ''user''),
                   (''message'', JObj [(''content'', JStr ''hi''),
                                       (''usage'', JObj [(''input_tokens'', JNum 100)])])])"

definition ex_partial_line :: jline where
  "ex_partial_line =
     Parsed (JObj [(''type'', JStr ''assistant''),
                   (''message'', JObj [(''content'', JArr [JObj [(''type'', JStr ''text''), (''text'', JStr ''ok'')]]),
                                       (''usage'', JObj [(''input_tokens'', JNum 3)])])])"

definition ex_lines :: "jline list" where
  "ex_lines = [ex_line (JStr ''a'') 5 7, ex_user_line, Invalid, Blank, ex_partial_line, Parsed JNull]"

definition empty_db :: database where
  "empty_db = \<lparr>conversations = [], tool_usage = [], conversation_fts = [], file_index = []\<rparr>"

definition ex_parse :: parse_result where
  "ex_parse =
     \<lparr>pr_messageCount = 2,
      pr_tokenUsage = \<lparr>tu_total = 12, tu_input = 5, tu_output = 7\<rparr>,
      pr_primaryModel = None,
      pr_toolUsage = \<lparr>tools_total = 0, tools = Some []\<rparr>,
      pr_searchableContent = ''hi'',
      pr_cwd = Some ''/u/proj''\<rparr>"

definition ex_file :: "int \<Rightarrow> int \<Rightarrow> file_entry" where
  "ex_file mtime now =
     \<lparr>fe_path = ''/h/projects/-u-proj/e0.jsonl'',
      fe_stat = Some \<lparr>st_mtime = mtime, st_size = 120, st_birthtime = 0\<rparr>,
      fe_parse = Some ex_parse,
      fe_now = now\<rparr>"

definition ex_store :: database where
  "ex_store =
     \<lparr>conversations =
        [mk_row ''q0'' ''/h/projects/-u-proj/q0.jsonl'' (Some ''proj'') 1000 (Some 0) None None,
         mk_row ''p1'' ''/h/projects/-u-proj/p1.jsonl'' (Some ''proj'') 2000 (Some 0) None None,
         mk_row ''p1_a1'' ''/h/projects/-u-proj/p1/subagents/a1.jsonl'' (Some ''proj'') 3000 (Some 1)
           (Some ''p1'') None,
         mk_row ''q0_a2'' ''/h/projects/-u-proj/q0/subagents/a2.jsonl'' (Some ''proj'') 4000 (Some 1)
           (Some ''q0'') None],
      tool_usage =
        [\<lparr>t_conversation_id = ''q0'', t_tool_name = ''Read'', t_call_count = 2\<rparr>,
         \<lparr>t_conversation_id = ''p1'', t_tool_name = ''Read'', t_call_count = 1\<rparr>,
         \<lparr>t_conversation_id = ''p1_a1'', t_tool_name = ''Bash'', t_call_count = 1\<rparr>],
      conversation_fts =
        [\<lparr>fts_conversation_id = ''q0'', fts_content = ''zero'', fts_project = ''proj''\<rparr>,
         \<lparr>fts_conversation_id = ''p1'', fts_content = ''one'', fts_project = ''proj''\<rparr>,
         \<lparr>fts_conversation_id = ''p1_a1'', fts_content = ''two'', fts_project = ''proj''\<rparr>],
      file_index =
        [\<lparr>fi_file_path = ''/h/projects/-u-proj/q0.jsonl'', fi_mtime = 1000, fi_size = 100,
          fi_indexed_at = 5000\<rparr>,
         \<lparr>fi_file_path = ''/h/projects/-u-proj/p1.jsonl'', fi_mtime = 2000, fi_size = 100,
          fi_indexed_at = 5000\<rparr>,
         \<lparr>fi_file_path = ''/h/projects/-u-proj/p1/subagents/a1.jsonl'', fi_mtime = 3000, fi_size = 100,
          fi_indexed_at = 5000\<rparr>,
         \<lparr>fi_file_path = ''/h/projects/-u-proj/q0/subagents/a2.jsonl'', fi_mtime = 4000, fi_size = 100,
          fi_indexed_at = 5000\<rparr>]\<rparr>"

definition page_options :: options where
  "page_options = \<lparr>limit = Some 1, offset = Some 1, sortBy = None, sortOrder = None,
                    project_filter = None, includeSubagents = Some True\<rparr>"

definition ex_s3 :: gconv where
  "ex_s3 = \<lparr>g_id = ''P_c'', g_lastModified = 2, g_isSubagent = True, g_parentId = Some ''P'',
            g_subagentCount = None, g_isStub = False\<rparr>"

definition ex_orphan :: gconv where
  "ex_orphan = \<lparr>g_id = ''Z_a'', g_lastModified = 5, g_isSubagent = True, g_parentId = Some ''Z'',
                g_subagentCount = None, g_isStub = False\<rparr>"




section \<open>Properties\<close>

lemmas ex_defs = ex_db_def ex_parent_def ex_child_def mk_row_def

subsection \<open>White space\<close>

lemma trim_empty_iff: "trim s = [] \<longleftrightarrow> (\<forall>c \<in> set s. is_space c)"
proof -
  have "trim s = [] \<longleftrightarrow> dropWhile is_space s = []"
    by (simp add: trim_def dropWhile_eq_Nil_conv) (metis dropWhile_eq_Nil_conv hd_dropWhile list.set_sel(1) set_dropWhileD)
  then show ?thesis by (simp add: dropWhile_eq_Nil_conv)
qed

lemma blank_query_iff: "blank_query q \<longleftrightarrow> (\<forall>c \<in> set q. is_space c)"
  by (auto simp: blank_query_def trim_empty_iff)

lemma clear_parent_id [simp]: "c_id (clear_parent cid r) = c_id r"
  by (simp add: clear_parent_def)

lemma clear_parent_cleared [simp]: "c_parent_id (clear_parent cid r) \<noteq> Some cid"
  by (simp add: clear_parent_def)

lemma removeFile_Some:
  "select_by_path p db = Some s \<Longrightarrow>
   removeFile p db =
     db\<lparr>conversations := map (clear_parent (c_id s)) (filter (\<lambda>r. c_id r \<noteq> c_id s) (conversations db)),
        conversation_fts := filter (\<lambda>f. fts_conversation_id f \<noteq> c_id s) (conversation_fts db),
        tool_usage := filter (\<lambda>t. t_conversation_id t \<noteq> c_id s) (tool_usage db),
        file_index := filter (\<lambda>f. fi_file_path f \<noteq> p) (file_index db)\<rparr>"
  by (simp add: removeFile_def delete_file_index_def delete_conversation_def delete_tools_def
      delete_fts_def clear_parent_refs_def filter_map comp_def)

lemma removeFile_None:
  "select_by_path p db = None \<Longrightarrow>
   removeFile p db = db\<lparr>file_index := filter (\<lambda>f. fi_file_path f \<noteq> p) (file_index db)\<rparr>"
  by (simp add: removeFile_def delete_file_index_def)


subsection \<open>removeFile\<close>

lemma find_unique:
  "distinct (map f xs) \<Longrightarrow> s \<in> set xs \<Longrightarrow> find (\<lambda>r. f r = f s) xs = Some s"
  by (induction xs) (auto simp: image_iff)

text \<open>
  \<^bold>\<open>C1.\<close> \<open>removeFile p\<close> is one step from the store before to the store after (the body of
  one transaction). Let \<open>s\<close> be a session of the store whose file path is \<open>p\<close>; the column
  \<open>file_path\<close> is \<^verbatim>\<open>UNIQUE\<close>, so it is the only one. Then the four tables afterwards are
  exactly these: the sessions are the old ones without \<open>s\<close>, in their order, each unchanged
  except that \<open>parent_id\<close> is null where it was the id of \<open>s\<close>; the FTS rows and the tool
  rows are the old ones without those of the id of \<open>s\<close>; the file-tracking rows are the old
  ones without those of \<open>p\<close>. So no session has the id of \<open>s\<close> or names it as its parent,
  no FTS row and no tool row carries that id, no file-tracking row has the path \<open>p\<close>, and
  every other session, the children of \<open>s\<close> among them, is still there.
\<close>

theorem removeFile_removes_session:
  assumes "s \<in> set (conversations db)" and "c_file_path s = p"
    and "distinct (map c_file_path (conversations db))"
  shows
   "conversations (removeFile p db) =
      map (\<lambda>r. if c_parent_id r = Some (c_id s) then r\<lparr>c_parent_id := None\<rparr> else r)
        (filter (\<lambda>r. c_id r \<noteq> c_id s) (conversations db)) \<and>
    conversation_fts (removeFile p db) =
      filter (\<lambda>f. fts_conversation_id f \<noteq> c_id s) (conversation_fts db) \<and>
    tool_usage (removeFile p db) =
      filter (\<lambda>t. t_conversation_id t \<noteq> c_id s) (tool_usage db) \<and>
    file_index (removeFile p db) = filter (\<lambda>f. fi_file_path f \<noteq> p) (file_index db) \<and>
    (\<forall>r \<in> set (conversations (removeFile p db)).
        c_id r \<noteq> c_id s \<and> c_parent_id r \<noteq> Some (c_id s)) \<and>
    (\<forall>f \<in> set (conversation_fts (removeFile p db)). fts_conversation_id f \<noteq> c_id s) \<and>
    (\<forall>t \<in> set (tool_usage (removeFile p db)). t_conversation_id t \<noteq> c_id s) \<and>
    (\<forall>f \<in> set (file_index (removeFile p db)). fi_file_path f \<noteq> p) \<and>
    map c_id (conversations (removeFile p db)) =
      filter (\<lambda>i. i \<noteq> c_id s) (map c_id (conversations db))"
proof -
  from find_unique [OF assms(3) assms(1)] assms(2)
  have sel: "select_by_path p db = Some s" by (simp add: select_by_path_def)
  note r = removeFile_Some [OF sel]
  have ids: "map c_id (map (clear_parent (c_id s)) (filter (\<lambda>r. c_id r \<noteq> c_id s) (conversations db))) =
      filter (\<lambda>i. i \<noteq> c_id s) (map c_id (conversations db))"
    by (simp add: filter_map comp_def clear_parent_def if_distrib cong: if_cong)
  have cp: "clear_parent (c_id s) = (\<lambda>r. if c_parent_id r = Some (c_id s) then r\<lparr>c_parent_id := None\<rparr> else r)"
    by (simp add: fun_eq_iff clear_parent_def)
  show ?thesis
    unfolding r using ids by (auto simp: cp)
qed


lemmas store_defs = ex_store_def mk_row_def

theorem removeFile_removes_session_witness:
  "mk_row ''p1'' ''/h/projects/-u-proj/p1.jsonl'' (Some ''proj'') 2000 (Some 0) None None
     \<in> set (conversations ex_store) \<and>
   distinct (map c_file_path (conversations ex_store)) \<and>
   conversations (removeFile ''/h/projects/-u-proj/p1.jsonl'' ex_store) =
     [mk_row ''q0'' ''/h/projects/-u-proj/q0.jsonl'' (Some ''proj'') 1000 (Some 0) None None,
      mk_row ''p1_a1'' ''/h/projects/-u-proj/p1/subagents/a1.jsonl'' (Some ''proj'') 3000 (Some 1)
        None None,
      mk_row ''q0_a2'' ''/h/projects/-u-proj/q0/subagents/a2.jsonl'' (Some ''proj'') 4000 (Some 1)
        (Some ''q0'') None] \<and>
   map fts_conversation_id (conversation_fts (removeFile ''/h/projects/-u-proj/p1.jsonl'' ex_store)) =
     [''q0'', ''p1_a1''] \<and>
   map t_conversation_id (tool_usage (removeFile ''/h/projects/-u-proj/p1.jsonl'' ex_store)) =
     [''q0'', ''p1_a1''] \<and>
   map fi_file_path (file_index (removeFile ''/h/projects/-u-proj/p1.jsonl'' ex_store)) =
     [''/h/projects/-u-proj/q0.jsonl'', ''/h/projects/-u-proj/p1/subagents/a1.jsonl'',
      ''/h/projects/-u-proj/q0/subagents/a2.jsonl'']"
proof -
  let ?s = "mk_row ''p1'' ''/h/projects/-u-proj/p1.jsonl'' (Some ''proj'') 2000 (Some 0) None None"
  let ?p = "''/h/projects/-u-proj/p1.jsonl''"
  have m: "?s \<in> set (conversations ex_store)" by (simp add: ex_store_def)
  have f: "c_file_path ?s = ?p" by (simp add: mk_row_def)
  have d: "distinct (map c_file_path (conversations ex_store))" by (simp add: store_defs)
  have i: "c_id ?s = ''p1''" by (simp add: mk_row_def)
  have a: "map (\<lambda>r. if c_parent_id r = Some ''p1'' then r\<lparr>c_parent_id := None\<rparr> else r)
             (filter (\<lambda>r. c_id r \<noteq> ''p1'') (conversations ex_store)) =
     [mk_row ''q0'' ''/h/projects/-u-proj/q0.jsonl'' (Some ''proj'') 1000 (Some 0) None None,
      mk_row ''p1_a1'' ''/h/projects/-u-proj/p1/subagents/a1.jsonl'' (Some ''proj'') 3000 (Some 1)
        None None,
      mk_row ''q0_a2'' ''/h/projects/-u-proj/q0/subagents/a2.jsonl'' (Some ''proj'') 4000 (Some 1)
        (Some ''q0'') None]"
    by (simp add: store_defs)
  have b: "map fts_conversation_id
             (filter (\<lambda>f. fts_conversation_id f \<noteq> ''p1'') (conversation_fts ex_store)) =
           [''q0'', ''p1_a1'']"
    by (simp add: ex_store_def)
  have c: "map t_conversation_id
             (filter (\<lambda>t. t_conversation_id t \<noteq> ''p1'') (tool_usage ex_store)) = [''q0'', ''p1_a1'']"
    by (simp add: ex_store_def)
  have e: "map fi_file_path (filter (\<lambda>f. fi_file_path f \<noteq> ?p) (file_index ex_store)) =
     [''/h/projects/-u-proj/q0.jsonl'', ''/h/projects/-u-proj/p1/subagents/a1.jsonl'',
      ''/h/projects/-u-proj/q0/subagents/a2.jsonl'']"
    by (simp add: ex_store_def)
  note t = removeFile_removes_session [OF m f d, unfolded i]
  from t have 1: "conversations (removeFile ?p ex_store) =
      map (\<lambda>r. if c_parent_id r = Some ''p1'' then r\<lparr>c_parent_id := None\<rparr> else r)
        (filter (\<lambda>r. c_id r \<noteq> ''p1'') (conversations ex_store))" by (rule conjunct1)
  from t have 2: "conversation_fts (removeFile ?p ex_store) =
      filter (\<lambda>f. fts_conversation_id f \<noteq> ''p1'') (conversation_fts ex_store)" by blast
  from t have 3: "tool_usage (removeFile ?p ex_store) =
      filter (\<lambda>t. t_conversation_id t \<noteq> ''p1'') (tool_usage ex_store)" by blast
  from t have 4: "file_index (removeFile ?p ex_store) =
      filter (\<lambda>f. fi_file_path f \<noteq> ?p) (file_index ex_store)" by blast
  show ?thesis
    unfolding 1 2 3 4 a b c e using m d by blast
qed

text \<open>
  \<^bold>\<open>C10.\<close> If no session has the file path \<open>p\<close>, then \<open>removeFile p\<close> leaves the sessions,
  the tool rows and the FTS rows as they are and deletes the file-tracking rows of \<open>p\<close>.
\<close>

theorem removeFile_without_session:
  assumes "\<forall>r \<in> set (conversations db). c_file_path r \<noteq> p"
  shows "conversations (removeFile p db) = conversations db \<and>
         tool_usage (removeFile p db) = tool_usage db \<and>
         conversation_fts (removeFile p db) = conversation_fts db \<and>
         file_index (removeFile p db) = filter (\<lambda>f. fi_file_path f \<noteq> p) (file_index db) \<and>
         (\<forall>f \<in> set (file_index (removeFile p db)). fi_file_path f \<noteq> p)"
proof -
  from assms have "select_by_path p db = None"
    by (simp add: select_by_path_def find_None_iff)
  then show ?thesis by (simp add: removeFile_None)
qed

theorem removeFile_without_session_witness:
  "''/h/projects/-u-proj/gone.jsonl'' \<notin> c_file_path ` set (conversations ex_db) \<and>
   conversations (removeFile ''/h/projects/-u-proj/gone.jsonl'' ex_db) = conversations ex_db \<and>
   tool_usage (removeFile ''/h/projects/-u-proj/gone.jsonl'' ex_db) = tool_usage ex_db \<and>
   conversation_fts (removeFile ''/h/projects/-u-proj/gone.jsonl'' ex_db) = conversation_fts ex_db \<and>
   map fi_file_path (file_index (removeFile ''/h/projects/-u-proj/gone.jsonl'' ex_db)) =
     [''/h/projects/-u-proj/p1.jsonl'', ''/h/projects/-u-proj/p1/subagents/agent-1.jsonl'']"
proof -
  have h: "\<forall>r \<in> set (conversations ex_db). c_file_path r \<noteq> ''/h/projects/-u-proj/gone.jsonl''"
    by (simp add: ex_defs)
  have e: "map fi_file_path
             (filter (\<lambda>f. fi_file_path f \<noteq> ''/h/projects/-u-proj/gone.jsonl'') (file_index ex_db)) =
           [''/h/projects/-u-proj/p1.jsonl'', ''/h/projects/-u-proj/p1/subagents/agent-1.jsonl'']"
    by (simp add: ex_defs)
  note r = removeFile_without_session [OF h]
  have n: "''/h/projects/-u-proj/gone.jsonl'' \<notin> c_file_path ` set (conversations ex_db)"
    by (simp add: ex_defs)
  from r have f: "file_index (removeFile ''/h/projects/-u-proj/gone.jsonl'' ex_db) =
      filter (\<lambda>f. fi_file_path f \<noteq> ''/h/projects/-u-proj/gone.jsonl'') (file_index ex_db)"
    by blast
  have m: "map fi_file_path (file_index (removeFile ''/h/projects/-u-proj/gone.jsonl'' ex_db)) =
     [''/h/projects/-u-proj/p1.jsonl'', ''/h/projects/-u-proj/p1/subagents/agent-1.jsonl'']"
    unfolding f by (rule e)
  from r n m show ?thesis by blast
qed

subsection \<open>upsertConversation and the FTS table\<close>

lemma fts_fold_replace_tool:
  "conversation_fts (fold (\<lambda>(toolName, count). replace_tool (mk toolName count)) entries db) =
   conversation_fts db"
  by (induction entries arbitrary: db) (auto simp: replace_tool_def)

lemma fts_upsertConversation:
  "conversation_fts (upsertConversation now conv text db) =
     filter (\<lambda>f. fts_conversation_id f \<noteq> id_of conv) (conversation_fts db) @
     (if trim text \<noteq> []
      then [\<lparr>fts_conversation_id = id_of conv, fts_content = text,
              fts_project = str_or_empty (str_or_null (project conv))\<rparr>]
      else [])"
  by (simp add: upsertConversation_def Let_def fts_fold_replace_tool delete_tools_def
      replace_file_index_def insert_fts_def delete_fts_def replace_conversation_def
      split: option.splits)

lemma ex_blank: "\<forall>c \<in> set [CHR '' '', CHR 0x09]. is_space c"
  by (simp add: is_space_def)


text \<open>
  \<^bold>\<open>C3.\<close> After \<open>upsertConversation\<close> the FTS table holds at most one row for the id of the
  record. If the searchable text is empty or all white space, it holds none: the rows that
  were there for this id are deleted and nothing is inserted, so the table is the old one
  without them. Otherwise it holds exactly the new row.
\<close>

theorem upsertConversation_fts_rows:
  "length (filter (\<lambda>f. fts_conversation_id f = id_of conv)
             (conversation_fts (upsertConversation now conv text db))) \<le> 1 \<and>
   ((\<forall>c \<in> set text. is_space c) \<longrightarrow>
      filter (\<lambda>f. fts_conversation_id f = id_of conv)
        (conversation_fts (upsertConversation now conv text db)) = [] \<and>
      conversation_fts (upsertConversation now conv text db) =
        filter (\<lambda>f. fts_conversation_id f \<noteq> id_of conv) (conversation_fts db)) \<and>
   (\<not> (\<forall>c \<in> set text. is_space c) \<longrightarrow>
      filter (\<lambda>f. fts_conversation_id f = id_of conv)
        (conversation_fts (upsertConversation now conv text db)) =
        [\<lparr>fts_conversation_id = id_of conv, fts_content = text,
          fts_project = str_or_empty (str_or_null (project conv))\<rparr>])"
proof -
  have none: "filter (\<lambda>f. fts_conversation_id f = id_of conv)
                (filter (\<lambda>f. fts_conversation_id f \<noteq> id_of conv) (conversation_fts db)) = []"
    by (simp add: filter_empty_conv)
  show ?thesis
  proof (cases "trim text = []")
    case True
    then have "\<forall>c \<in> set text. is_space c" by (simp add: trim_empty_iff)
    with True none show ?thesis by (simp add: fts_upsertConversation)
  next
    case False
    then have "\<not> (\<forall>c \<in> set text. is_space c)" by (simp add: trim_empty_iff)
    with False none show ?thesis by (simp add: fts_upsertConversation)
  qed
qed

theorem upsertConversation_fts_rows_witness:
  "list_all is_space [CHR '' '', CHR 0x09] \<and>
   conversation_fts (upsertConversation 9000 ex_conversation [CHR '' '', CHR 0x09] ex_db) =
     [\<lparr>fts_conversation_id = ''p1_agent-1'', fts_content = ''world'', fts_project = ''src''\<rparr>] \<and>
   \<not> list_all is_space ''hi'' \<and>
   filter (\<lambda>f. fts_conversation_id f = ''p1'')
     (conversation_fts (upsertConversation 9000 ex_conversation ''hi'' ex_db)) =
     [\<lparr>fts_conversation_id = ''p1'', fts_content = ''hi'', fts_project = ''proj''\<rparr>]"
proof -
  have i: "id_of ex_conversation = ''p1''" by (simp add: ex_conversation_def)
  have p: "str_or_empty (str_or_null (project ex_conversation)) = ''proj''"
    by (simp add: ex_conversation_def str_or_empty_def str_or_null_def)
  have h2: "\<not> (\<forall>c \<in> set ''hi''. is_space c)" by (simp add: is_space_def)
  have b: "filter (\<lambda>f. fts_conversation_id f \<noteq> ''p1'') (conversation_fts ex_db) =
           [\<lparr>fts_conversation_id = ''p1_agent-1'', fts_content = ''world'', fts_project = ''src''\<rparr>]"
    by (simp add: ex_defs)
  from upsertConversation_fts_rows [of ex_conversation 9000 "[CHR '' '', CHR 0x09]" ex_db] ex_blank
  have "conversation_fts (upsertConversation 9000 ex_conversation [CHR '' '', CHR 0x09] ex_db) =
        filter (\<lambda>f. fts_conversation_id f \<noteq> id_of ex_conversation) (conversation_fts ex_db)"
    by blast
  then have c1: "conversation_fts (upsertConversation 9000 ex_conversation [CHR '' '', CHR 0x09] ex_db) =
     [\<lparr>fts_conversation_id = ''p1_agent-1'', fts_content = ''world'', fts_project = ''src''\<rparr>]"
    unfolding i b .
  from upsertConversation_fts_rows [of ex_conversation 9000 "''hi''" ex_db] h2
  have "filter (\<lambda>f. fts_conversation_id f = id_of ex_conversation)
          (conversation_fts (upsertConversation 9000 ex_conversation ''hi'' ex_db)) =
        [\<lparr>fts_conversation_id = id_of ex_conversation, fts_content = ''hi'',
          fts_project = str_or_empty (str_or_null (project ex_conversation))\<rparr>]"
    by blast
  then have c2: "filter (\<lambda>f. fts_conversation_id f = ''p1'')
     (conversation_fts (upsertConversation 9000 ex_conversation ''hi'' ex_db)) =
     [\<lparr>fts_conversation_id = ''p1'', fts_content = ''hi'', fts_project = ''proj''\<rparr>]"
    unfolding i p .
  have l1: "list_all is_space [CHR '' '', CHR 0x09]" by (simp add: is_space_def)
  have l2: "\<not> list_all is_space ''hi''" by (simp add: is_space_def)
  from l1 c1 l2 c2 show ?thesis by blast
qed


subsection \<open>Blank queries\<close>

text \<open>
  \<^bold>\<open>C8.\<close> For a query that is empty or all white space, \<open>searchConversationsWithSnippets\<close>
  returns the empty list, whatever the options, the store and the engine are.
\<close>

theorem snippets_blank_query_empty:
  "\<forall>c \<in> set query. is_space c \<Longrightarrow> searchConversationsWithSnippets engine query opts db = []"
  by (simp add: searchConversationsWithSnippets_def blank_query_iff)

theorem snippets_blank_query_empty_witness:
  "list_all is_space [CHR '' '', CHR 0x09] \<and>
   searchConversationsWithSnippets ex_engine [CHR '' '', CHR 0x09] no_options ex_db = []"
proof -
  have l1: "list_all is_space [CHR '' '', CHR 0x09]" by (simp add: is_space_def)
  from l1 snippets_blank_query_empty [OF ex_blank, of ex_engine no_options ex_db]
  show ?thesis by (rule conjI)
qed


lemma sorted_wrt_limit_offset:
  "sorted_wrt P xs \<Longrightarrow> sorted_wrt P (limit_offset lim off xs)"
  by (simp add: limit_offset_def Let_def sorted_wrt_take sorted_wrt_drop)

lemma set_limit_offset: "set (limit_offset lim off xs) \<subseteq> set xs"
  by (auto simp: limit_offset_def Let_def dest: in_set_takeD in_set_dropD)

lemma sorted_desc_order_by:
  "sorted_wrt (\<lambda>a b. key b \<le> key a) (order_by key False xs)"
proof -
  have "sorted (map (\<lambda>x. - key x) (sort_key (\<lambda>x. - key x) xs))" by (rule sorted_sort_key)
  then show ?thesis by (simp add: order_by_def sorted_map)
qed

lemma set_order_by [simp]: "set (order_by key asc xs) = set xs"
  by (simp add: order_by_def)

lemma length_order_by [simp]: "length (order_by key asc xs) = length xs"
  by (simp add: order_by_def)

lemma getConversations_rows:
  "\<exists>key asc.
     getConversations opts db =
       limit_offset (case limit opts of None \<Rightarrow> 100 | Some n \<Rightarrow> n)
         (case offset opts of None \<Rightarrow> 0 | Some k \<Rightarrow> k)
         (order_by key asc (filter (listed opts) (conversations db))) \<and>
     (sortBy opts = None \<and> sortOrder opts = None \<longrightarrow> key = c_last_modified \<and> \<not> asc)"
proof -
  have f: "(case str_or_null (project_filter opts) of
              None \<Rightarrow> (if dflt False (includeSubagents opts) then conversations db
                        else filter not_subagent (conversations db))
            | Some p \<Rightarrow> filter (\<lambda>r. c_project r = Some p)
                         (if dflt False (includeSubagents opts) then conversations db
                          else filter not_subagent (conversations db))) =
           filter (listed opts) (conversations db)"
    by (cases "includeSubagents opts"; cases "project_filter opts")
       (auto simp: listed_def dflt_def str_or_null_def not_subagent_def intro!: filter_cong)
  have l: "dflt 100 (limit opts) = (case limit opts of None \<Rightarrow> 100 | Some n \<Rightarrow> n)"
    and k: "dflt 0 (offset opts) = (case offset opts of None \<Rightarrow> 0 | Some k \<Rightarrow> k)"
    by (simp_all add: dflt_def)
  show ?thesis
    unfolding getConversations_def Let_def f l k
    by (intro exI conjI impI, rule refl)
       (auto simp: dflt_def sort_column_def ascii_upper_def)
qed

lemma length_limit_offset:
  "length (limit_offset lim off xs) =
     (if lim < 0 then length xs - nat off else min (nat lim) (length xs - nat off))"
  by (simp add: limit_offset_def Let_def min.commute)

lemma sorted_wrt_take_rest:
  assumes "sorted_wrt R xs" "x \<in> set (take n xs)" "y \<in> set xs" "y \<notin> set (take n xs)"
  shows "R x y"
proof -
  from assms(3,4) have "y \<in> set (drop n xs)"
    by (metis Un_iff append_take_drop_id set_append)
  moreover from assms(1) have "sorted_wrt R (take n xs @ drop n xs)" by simp
  ultimately show ?thesis using assms(2) by (auto simp only: sorted_wrt_append)
qed

text \<open>
  \<^bold>\<open>C9.\<close> For a query that is empty or all white space, \<open>searchConversations\<close> returns
  what \<open>getConversations\<close> returns for the same options, whatever the search engine answers.
  That listing holds only rows of the store that the options admit (subagents only when
  \<open>includeSubagents\<close> is true, one project when the options name one). Its length is the page
  size: of the admitted rows left after the offset, as many as the limit allows; so at most
  \<open>n\<close> rows for a limit \<open>n \<ge> 0\<close> (none for the limit 0), at most 100 when the options give
  no limit (the default of the listing, not the 50 of the search), and all of them for a
  negative limit. When the options name no order the rows are in descending \<open>last_modified\<close>,
  and without an offset they are the most recent ones: no admitted row left out is more
  recent than a row returned.
\<close>

theorem search_blank_query_lists:
  assumes "\<forall>c \<in> set query. is_space c"
  shows "searchConversations engine query opts db = map plain (getConversations opts db) \<and>
         set (getConversations opts db) \<subseteq> {r \<in> set (conversations db). listed opts r} \<and>
         length (getConversations opts db) =
           page_size opts (length (filter (listed opts) (conversations db)) - page_skip opts) \<and>
         (\<forall>n. limit opts = Some n \<and> 0 \<le> n \<longrightarrow>
            length (searchConversations engine query opts db) \<le> nat n) \<and>
         (limit opts = None \<longrightarrow> length (searchConversations engine query opts db) \<le> 100) \<and>
         (sortBy opts = None \<and> sortOrder opts = None \<longrightarrow>
            sorted_wrt (\<lambda>a b. c_last_modified b \<le> c_last_modified a) (getConversations opts db)) \<and>
         (sortBy opts = None \<and> sortOrder opts = None \<and> page_skip opts = 0 \<longrightarrow>
            (\<forall>x \<in> set (getConversations opts db). \<forall>y \<in> set (conversations db).
               listed opts y \<and> y \<notin> set (getConversations opts db) \<longrightarrow>
               c_last_modified y \<le> c_last_modified x))"
proof -
  from assms have eq: "searchConversations engine query opts db = map plain (getConversations opts db)"
    by (simp add: searchConversations_def blank_query_iff)
  from getConversations_rows [of opts db] obtain key asc where
    g: "getConversations opts db =
       limit_offset (case limit opts of None \<Rightarrow> 100 | Some n \<Rightarrow> n)
         (case offset opts of None \<Rightarrow> 0 | Some k \<Rightarrow> k)
         (order_by key asc (filter (listed opts) (conversations db)))"
    and d: "sortBy opts = None \<and> sortOrder opts = None \<longrightarrow> key = c_last_modified \<and> \<not> asc"
    by blast
  have sub: "set (getConversations opts db) \<subseteq> {r \<in> set (conversations db). listed opts r}"
    unfolding g using set_limit_offset [of _ _ "order_by key asc (filter (listed opts) (conversations db))"]
    by auto
  have len: "length (getConversations opts db) =
           page_size opts (length (filter (listed opts) (conversations db)) - page_skip opts)"
    unfolding g by (auto simp: length_limit_offset page_size_def page_skip_def split: option.splits)
  have b1: "\<forall>n. limit opts = Some n \<and> 0 \<le> n \<longrightarrow>
            length (searchConversations engine query opts db) \<le> nat n"
    unfolding eq by (simp add: len page_size_def)
  have b2: "limit opts = None \<longrightarrow> length (searchConversations engine query opts db) \<le> 100"
    unfolding eq by (simp add: len page_size_def)
  have srt: "sortBy opts = None \<and> sortOrder opts = None \<longrightarrow>
            sorted_wrt (\<lambda>a b. c_last_modified b \<le> c_last_modified a) (getConversations opts db)"
    unfolding g using d by (auto intro!: sorted_wrt_limit_offset sorted_desc_order_by)
  have top: "sortBy opts = None \<and> sortOrder opts = None \<and> page_skip opts = 0 \<longrightarrow>
            (\<forall>x \<in> set (getConversations opts db). \<forall>y \<in> set (conversations db).
               listed opts y \<and> y \<notin> set (getConversations opts db) \<longrightarrow>
               c_last_modified y \<le> c_last_modified x)"
  proof (intro impI ballI)
    fix x y
    assume a: "sortBy opts = None \<and> sortOrder opts = None \<and> page_skip opts = 0"
      and x: "x \<in> set (getConversations opts db)" and y: "y \<in> set (conversations db)"
      and ly: "listed opts y \<and> y \<notin> set (getConversations opts db)"
    let ?all = "order_by c_last_modified False (filter (listed opts) (conversations db))"
    let ?lim = "case limit opts of None \<Rightarrow> 100 | Some n \<Rightarrow> n"
    from a d have g': "getConversations opts db = limit_offset ?lim (case offset opts of None \<Rightarrow> 0 | Some k \<Rightarrow> k) ?all"
      using g by simp
    from a have "drop (nat (case offset opts of None \<Rightarrow> 0 | Some k \<Rightarrow> k)) ?all = ?all"
      by (simp add: page_skip_def split: option.splits)
    with g' have g'': "getConversations opts db = (if ?lim < 0 then ?all else take (nat ?lim) ?all)"
      by (simp add: limit_offset_def Let_def)
    have yall: "y \<in> set ?all" using y ly by simp
    show "c_last_modified y \<le> c_last_modified x"
    proof (cases "?lim < 0")
      case True
      with g'' yall ly show ?thesis by simp
    next
      case False
      with g'' have t: "getConversations opts db = take (nat ?lim) ?all" by simp
      from sorted_wrt_take_rest [OF sorted_desc_order_by, of x "nat ?lim" c_last_modified _ y]
        x yall ly show ?thesis unfolding t by blast
    qed
  qed
  from eq sub len b1 b2 srt top show ?thesis by blast
qed

theorem search_blank_query_lists_witness:
  "list_all is_space [CHR '' '', CHR 0x09] \<and>
   searchConversations ex_engine [CHR '' '', CHR 0x09] page_options ex_store =
     [plain (mk_row ''p1_a1'' ''/h/projects/-u-proj/p1/subagents/a1.jsonl'' (Some ''proj'') 3000
               (Some 1) (Some ''p1'') None)] \<and>
   searchConversations ex_engine [CHR '' '', CHR 0x09] (page_options\<lparr>limit := Some 0\<rparr>) ex_store = [] \<and>
   searchConversations ex_engine [CHR '' '', CHR 0x09] no_options ex_store =
     [plain (mk_row ''p1'' ''/h/projects/-u-proj/p1.jsonl'' (Some ''proj'') 2000 (Some 0) None None),
      plain (mk_row ''q0'' ''/h/projects/-u-proj/q0.jsonl'' (Some ''proj'') 1000 (Some 0) None None)]"
proof -
  have l1: "list_all is_space [CHR '' '', CHR 0x09]" by (simp add: is_space_def)
  have g1: "getConversations page_options ex_store =
     [mk_row ''p1_a1'' ''/h/projects/-u-proj/p1/subagents/a1.jsonl'' (Some ''proj'') 3000
        (Some 1) (Some ''p1'') None]"
    by code_simp
  have g2: "getConversations no_options ex_store =
     [mk_row ''p1'' ''/h/projects/-u-proj/p1.jsonl'' (Some ''proj'') 2000 (Some 0) None None,
      mk_row ''q0'' ''/h/projects/-u-proj/q0.jsonl'' (Some ''proj'') 1000 (Some 0) None None]"
    by code_simp
  from search_blank_query_lists [OF ex_blank, of ex_engine page_options ex_store]
  have "searchConversations ex_engine [CHR '' '', CHR 0x09] page_options ex_store =
        map plain (getConversations page_options ex_store)"
    by (rule conjunct1)
  then have 1: "searchConversations ex_engine [CHR '' '', CHR 0x09] page_options ex_store =
     [plain (mk_row ''p1_a1'' ''/h/projects/-u-proj/p1/subagents/a1.jsonl'' (Some ''proj'') 3000
               (Some 1) (Some ''p1'') None)]"
    unfolding g1 by simp
  have z: "limit (page_options\<lparr>limit := Some 0\<rparr>) = Some 0 \<and> (0::int) \<le> 0" by simp
  from search_blank_query_lists [OF ex_blank, of ex_engine "page_options\<lparr>limit := Some 0\<rparr>" ex_store] z
  have "length (searchConversations ex_engine [CHR '' '', CHR 0x09] (page_options\<lparr>limit := Some 0\<rparr>) ex_store)
          \<le> nat 0"
    by blast
  then have 2: "searchConversations ex_engine [CHR '' '', CHR 0x09] (page_options\<lparr>limit := Some 0\<rparr>) ex_store = []"
    by simp
  from search_blank_query_lists [OF ex_blank, of ex_engine no_options ex_store]
  have "searchConversations ex_engine [CHR '' '', CHR 0x09] no_options ex_store =
        map plain (getConversations no_options ex_store)"
    by (rule conjunct1)
  then have 3: "searchConversations ex_engine [CHR '' '', CHR 0x09] no_options ex_store =
     [plain (mk_row ''p1'' ''/h/projects/-u-proj/p1.jsonl'' (Some ''proj'') 2000 (Some 0) None None),
      plain (mk_row ''q0'' ''/h/projects/-u-proj/q0.jsonl'' (Some ''proj'') 1000 (Some 0) None None)]"
    unfolding g2 by simp
  from l1 1 2 3 show ?thesis by blast
qed


subsection \<open>Grouping subagents under their parents\<close>

lemmas g_defs = ex_p_def ex_s1_def ex_s2_def ex_s3_def ex_orphan_def

lemmas group_defs = groupSubagentsUnderParents_def allParents_def childSubagents_def
  orphanSubagents_def subagentCounts_def sort_recent_def str_or_null_def str_or_empty_def num_or_def

lemma sorted_childSubagents:
  "sorted_wrt (\<lambda>a b. g_lastModified b \<le> g_lastModified a) (childSubagents subagents parent)"
proof -
  have "sorted (map (\<lambda>c. - g_lastModified c) (childSubagents subagents parent))"
    unfolding childSubagents_def sort_recent_def by (rule sorted_sort_key)
  then show ?thesis by (simp add: sorted_map)
qed

lemma stable_childSubagents:
  "filter (\<lambda>s. g_lastModified s = k) (childSubagents subagents parent) =
   filter (\<lambda>s. g_lastModified s = k) (filter (\<lambda>s. g_parentId s = Some (g_id parent)) subagents)"
  using sort_key_stable [of "\<lambda>c. - g_lastModified c" "- k"
      "filter (\<lambda>s. g_parentId s = Some (g_id parent)) subagents"]
  by (simp add: childSubagents_def sort_recent_def)

lemma childSubagents_sorted_input:
  assumes "sorted_wrt (\<lambda>a b. g_lastModified b \<le> g_lastModified a)
             (filter (\<lambda>s. g_parentId s = Some (g_id parent)) subagents)"
  shows "childSubagents subagents parent = filter (\<lambda>s. g_parentId s = Some (g_id parent)) subagents"
proof -
  from assms have "sorted (map (\<lambda>c. - g_lastModified c)
                     (filter (\<lambda>s. g_parentId s = Some (g_id parent)) subagents))"
    by (simp add: sorted_map)
  then show ?thesis
    unfolding childSubagents_def sort_recent_def by (rule sort_key_id_if_sorted)
qed

lemma set_childSubagents:
  "set (childSubagents subagents parent) = {s \<in> set subagents. g_parentId s = Some (g_id parent)}"
  by (simp add: childSubagents_def sort_recent_def)

lemma length_childSubagents:
  "length (childSubagents subagents parent) =
   length (filter (\<lambda>s. g_parentId s = Some (g_id parent)) subagents)"
  by (simp add: childSubagents_def sort_recent_def)



text \<open>
  \<^bold>\<open>C7.\<close> Grouping receives the rows of a listing or of a search: the listing orders them
  by \<open>last_modified\<close> descending (\<open>getConversations\<close> with the options of the route), and the
  search route sorts its results by \<open>lastModified\<close> descending just before the call. For every
  input in that order the sort of the subagents under a parent changes nothing: the subagents
  emitted under each parent are the subagents of the input that name it, in the order of the
  input, and the whole result is each parent, followed by these, followed by the subagents
  without a parent in the result, again in the order of the input. The result is a function of
  the input list, the backend flag and the lookup of the backend, so repeated calls with the
  same inputs give the same output.
\<close>

theorem grouping_keeps_input_order:
  assumes "sorted_wrt (\<lambda>a b. g_lastModified b \<le> g_lastModified a) convs"
  shows "(\<forall>parent. childSubagents (filter g_isSubagent convs) parent =
            filter (\<lambda>s. g_isSubagent s \<and> g_parentId s = Some (g_id parent)) convs) \<and>
         groupSubagentsUnderParents backend getConversation convs =
           (if filter g_isSubagent convs = [] then convs
            else concat (map (\<lambda>parent. parent #
                           filter (\<lambda>s. g_isSubagent s \<and> g_parentId s = Some (g_id parent)) convs)
                         (allParents backend getConversation convs))
                 @ filter (\<lambda>s. g_isSubagent s \<and>
                             (case str_or_null (g_parentId s) of
                                None \<Rightarrow> True
                              | Some pid \<Rightarrow>
                                  pid \<notin> set (map g_id (allParents backend getConversation convs))))
                     convs)"
proof -
  have c: "childSubagents (filter g_isSubagent convs) parent =
            filter (\<lambda>s. g_isSubagent s \<and> g_parentId s = Some (g_id parent)) convs" for parent
  proof -
    have "sorted_wrt (\<lambda>a b. g_lastModified b \<le> g_lastModified a)
            (filter (\<lambda>s. g_parentId s = Some (g_id parent)) (filter g_isSubagent convs))"
      by (intro sorted_wrt_filter assms)
    then have "childSubagents (filter g_isSubagent convs) parent =
               filter (\<lambda>s. g_parentId s = Some (g_id parent)) (filter g_isSubagent convs)"
      by (rule childSubagents_sorted_input)
    then show ?thesis by (simp add: conj_commute)
  qed
  have o: "orphanSubagents ps (filter g_isSubagent convs) =
           filter (\<lambda>s. g_isSubagent s \<and>
                     (case str_or_null (g_parentId s) of None \<Rightarrow> True
                      | Some pid \<Rightarrow> pid \<notin> set (map g_id ps))) convs" for ps
    by (simp add: orphanSubagents_def conj_commute)
  show ?thesis
    using c by (simp add: groupSubagentsUnderParents_def Let_def o)
qed

theorem grouping_keeps_input_order_witness:
  "sorted_wrt (\<lambda>a b. g_lastModified b \<le> g_lastModified a) [ex_p, ex_orphan, ex_s2, ex_s3, ex_s1] \<and>
   childSubagents (filter g_isSubagent [ex_p, ex_orphan, ex_s2, ex_s3, ex_s1]) ex_p =
     [ex_s2, ex_s3, ex_s1] \<and>
   groupSubagentsUnderParents False (\<lambda>pid. None) [ex_p, ex_orphan, ex_s2, ex_s3, ex_s1] =
     [ex_p\<lparr>g_subagentCount := Some 3\<rparr>, ex_s2, ex_s3, ex_s1, ex_orphan]"
proof -
  let ?in = "[ex_p, ex_orphan, ex_s2, ex_s3, ex_s1]"
  have s: "sorted_wrt (\<lambda>a b. g_lastModified b \<le> g_lastModified a) ?in"
    by (simp add: g_defs)
  note t = grouping_keeps_input_order [OF s, of False "\<lambda>pid. None"]
  have f: "filter (\<lambda>s. g_isSubagent s \<and> g_parentId s = Some (g_id ex_p)) ?in = [ex_s2, ex_s3, ex_s1]"
    by (simp add: g_defs)
  from t have "childSubagents (filter g_isSubagent ?in) ex_p =
            filter (\<lambda>s. g_isSubagent s \<and> g_parentId s = Some (g_id ex_p)) ?in" by blast
  then have 1: "childSubagents (filter g_isSubagent ?in) ex_p = [ex_s2, ex_s3, ex_s1]"
    unfolding f .
  have a: "allParents False (\<lambda>pid. None) ?in = [ex_p\<lparr>g_subagentCount := Some 3\<rparr>]"
    by (simp add: group_defs g_defs)
  have n: "filter g_isSubagent ?in \<noteq> []" by (simp add: g_defs)
  have f': "filter (\<lambda>s. g_isSubagent s \<and> g_parentId s = Some (g_id (ex_p\<lparr>g_subagentCount := Some 3\<rparr>))) ?in
            = [ex_s2, ex_s3, ex_s1]"
    by (simp add: g_defs)
  have o: "filter (\<lambda>s. g_isSubagent s \<and>
                     (case str_or_null (g_parentId s) of None \<Rightarrow> True
                      | Some pid \<Rightarrow> pid \<notin> set (map g_id [ex_p\<lparr>g_subagentCount := Some 3\<rparr>]))) ?in
           = [ex_orphan]"
    by (simp add: g_defs str_or_null_def)
  from t have "groupSubagentsUnderParents False (\<lambda>pid. None) ?in =
           (if filter g_isSubagent ?in = [] then ?in
            else concat (map (\<lambda>parent. parent #
                           filter (\<lambda>s. g_isSubagent s \<and> g_parentId s = Some (g_id parent)) ?in)
                         (allParents False (\<lambda>pid. None) ?in))
                 @ filter (\<lambda>s. g_isSubagent s \<and>
                             (case str_or_null (g_parentId s) of
                                None \<Rightarrow> True
                              | Some pid \<Rightarrow>
                                  pid \<notin> set (map g_id (allParents False (\<lambda>pid. None) ?in))))
                     ?in)" by (rule conjunct2)
  then have 2: "groupSubagentsUnderParents False (\<lambda>pid. None) ?in =
     [ex_p\<lparr>g_subagentCount := Some 3\<rparr>, ex_s2, ex_s3, ex_s1, ex_orphan]"
    unfolding a o if_not_P [OF n]
    by (simp only: list.map concat.simps f' append.simps append_Nil2)
  from s 1 2 show ?thesis by blast
qed


subsection \<open>The parser's token usage\<close>

lemmas line_defs = ex_line_def ex_user_line_def ex_partial_line_def ex_lines_def

lemmas parse_defs = parseJsonlStreaming_def on_close_def on_line_def set_cwd_def add_usage_def
  js_plus_def exact_def plus_throws_def text_block_def

lemmas token_defs = assistant_message_def message_usage_def message_content_def claimed_tokens_def

lemma set_cwd_tokens [simp]:
  "ps_input (set_cwd item st) = ps_input st"
  "ps_output (set_cwd item st) = ps_output st"
  "ps_messageCount (set_cwd item st) = ps_messageCount st"
  by (simp_all add: set_cwd_def)

lemma parse_total:
  "parseJsonlStreaming ls = Some st \<Longrightarrow> ps_total st = js_plus (ps_input st) (ps_output st)"
  by (auto simp: parseJsonlStreaming_def on_close_def Let_def split: if_splits)

lemma on_line_other:
  assumes "\<forall>item. l = Parsed item \<longrightarrow> \<not> assistant_message item"
  shows "ps_input (on_line l st) = ps_input st \<and> ps_output (on_line l st) = ps_output st"
proof (cases l)
  case (Parsed item)
  with assms have n: "\<not> assistant_message item" by simp
  show ?thesis
  proof (cases item)
    case JNull
    with Parsed show ?thesis by (simp add: on_line_def)
  qed (use Parsed n in \<open>auto simp: on_line_def assistant_message_def Let_def\<close>)
qed (simp_all add: on_line_def)

lemma on_line_throwing:
  assumes "assistant_message item" "content_throws (message_content item)"
  shows "on_line (Parsed item) st =
           (set_cwd item st)\<lparr>ps_messageCount := ps_messageCount (set_cwd item st) + 1\<rparr>"
proof -
  from assms(1) obtain kvs where "item = JObj kvs"
    by (cases item) (simp_all add: assistant_message_def)
  with assms show ?thesis
    by (simp add: on_line_def assistant_message_def message_content_def Let_def)
qed

lemma on_line_counted:
  assumes "assistant_message item" "\<not> content_throws (message_content item)"
    and "truthy (message_usage item)"
    and "\<not> plus_throws (property (message_usage item) ''input_tokens'')"
    and "\<not> plus_throws (property (message_usage item) ''output_tokens'')"
  shows "ps_messageCount (on_line (Parsed item) st) = ps_messageCount st + 1 \<and>
         ps_input (on_line (Parsed item) st) =
           js_plus (ps_input st) (added (property (message_usage item) ''input_tokens'')) \<and>
         ps_output (on_line (Parsed item) st) =
           js_plus (ps_output st) (added (property (message_usage item) ''output_tokens''))"
proof -
  from assms(1) obtain kvs where "item = JObj kvs"
    by (cases item) (simp_all add: assistant_message_def)
  with assms show ?thesis
    by (simp add: on_line_def assistant_message_def message_content_def message_usage_def
        add_usage_def Let_def)
qed

lemma row_tokens:
  "tu_total tu = tu_input tu + tu_output tu \<Longrightarrow>
   c_tokens_total (conversation_row now (conv\<lparr>tokenUsage := Some tu\<rparr>)) =
   c_tokens_input (conversation_row now (conv\<lparr>tokenUsage := Some tu\<rparr>)) +
   c_tokens_output (conversation_row now (conv\<lparr>tokenUsage := Some tu\<rparr>))"
  by (simp add: conversation_row_def num_or_def)

lemma content_throws_cases:
  "content_throws (Some (JArr [JNull])) \<and>
   content_throws (Some (JArr [JObj [(''type'', JStr ''text''),
                                     (''text'', JObj [(''toString'', JNum 1)])]])) \<and>
   content_throws (Some (JObj [(''type'', JStr ''text''), (''text'', JNum 5)])) \<and>
   \<not> content_throws (Some (JArr [JNum 5])) \<and>
   \<not> content_throws (Some (JArr [JObj [(''type'', JStr ''text'')]])) \<and>
   \<not> content_throws (Some JNull) \<and>
   \<not> content_throws None"
  by code_simp

text \<open>
  \<^bold>\<open>C6\<close> fails on a message line of type assistant whose content is an array holding
  \<open>null\<close>, with a usage of 5 input and 7 output tokens. \<^verbatim>\<open>_extractTextContent\<close> reads
  \<^verbatim>\<open>block.type\<close> of the null block and throws; the \<^verbatim>\<open>catch\<close> around \<^verbatim>\<open>JSON.parse\<close> takes the
  TypeError after the message has been counted and before the token step. The file is
  parsed to one message with 0 input, 0 output and 0 total tokens, where the claim adds 5 and
  7. Other contents without a text (\<open>null\<close>, an array holding a number, a block of type
  \<open>text\<close> without a \<open>text\<close>) are taken as empty and the same usage is added: 5, 7 and the
  total 12. Among other lines the line is again counted as a message and again adds nothing:
  4 messages with 8 and 7 tokens, where the claim adds 13 and 14.
\<close>

theorem parser_drops_tokens_of_counted_message:
  "parseJsonlStreaming [ex_line (JArr [JNull]) 5 7] =
     Some \<lparr>ps_messageCount = 1, ps_input = Some 0, ps_output = Some 0, ps_total = Some 0,
           ps_cwd = None, ps_join_throws = False\<rparr> \<and>
   claimed_tokens ''input_tokens'' (ex_line (JArr [JNull]) 5 7) = 5 \<and>
   claimed_tokens ''output_tokens'' (ex_line (JArr [JNull]) 5 7) = 7 \<and>
   parseJsonlStreaming [ex_line JNull 5 7] =
     Some \<lparr>ps_messageCount = 1, ps_input = Some 5, ps_output = Some 7, ps_total = Some 12,
           ps_cwd = None, ps_join_throws = False\<rparr> \<and>
   parseJsonlStreaming [ex_line (JArr [JNum 5]) 5 7] =
     Some \<lparr>ps_messageCount = 1, ps_input = Some 5, ps_output = Some 7, ps_total = Some 12,
           ps_cwd = None, ps_join_throws = False\<rparr> \<and>
   parseJsonlStreaming [ex_line (JArr [JObj [(''type'', JStr ''text'')]]) 5 7] =
     Some \<lparr>ps_messageCount = 1, ps_input = Some 5, ps_output = Some 7, ps_total = Some 12,
           ps_cwd = None, ps_join_throws = False\<rparr> \<and>
   parseJsonlStreaming (ex_lines @ [ex_line (JArr [JNull]) 5 7]) =
     Some \<lparr>ps_messageCount = 4, ps_input = Some 8, ps_output = Some 7, ps_total = Some 15,
           ps_cwd = None, ps_join_throws = False\<rparr> \<and>
   sum_list (map (claimed_tokens ''input_tokens'') (ex_lines @ [ex_line (JArr [JNull]) 5 7])) = 13 \<and>
   sum_list (map (claimed_tokens ''output_tokens'') (ex_lines @ [ex_line (JArr [JNull]) 5 7])) = 14"
  by code_simp


subsection \<open>Incremental indexing\<close>

text \<open>
  \<open>needsIndexing\<close> is false exactly when the file has a tracking row with the same
  \<open>mtime\<close> and \<open>size\<close>. Right after \<open>indexFile\<close> has stored a file, the same \<open>mtime\<close> and
  \<open>size\<close> still ask for indexing exactly when the \<open>mtime\<close> is 0 (and the clock is not): the
  tracking row is written with \<^verbatim>\<open>lastModified?.getTime() || now\<close>, which takes the time 0
  for a missing one.
\<close>

lemma needsIndexing_iff:
  "\<not> needsIndexing db path mtime sz \<longleftrightarrow>
     (\<exists>row. find (\<lambda>f. fi_file_path f = path) (file_index db) = Some row \<and>
            fi_mtime row = mtime \<and> fi_size row = sz)"
  by (auto simp: needsIndexing_def split: option.splits)


lemma file_index_fold_replace_tool:
  "file_index (fold (\<lambda>(toolName, count). replace_tool (mk toolName count)) entries db) = file_index db"
  by (induction entries arbitrary: db) (auto simp: replace_tool_def)

lemma file_index_upsertConversation:
  "file_index (upsertConversation now conv text db) =
     filter (\<lambda>g. fi_file_path g \<noteq> filePath conv) (file_index db) @
     [\<lparr>fi_file_path = filePath conv, fi_mtime = num_or (lastModified conv) now,
       fi_size = num_or (fileSize conv) 0, fi_indexed_at = now\<rparr>]"
  by (simp add: upsertConversation_def Let_def file_index_fold_replace_tool delete_tools_def
      replace_file_index_def insert_fts_def delete_fts_def replace_conversation_def
      split: option.splits)

lemma find_filter_append:
  "find P (filter (\<lambda>x. \<not> P x) xs @ [y]) = (if P y then Some y else None)"
  by (induction xs) auto

lemma needsIndexing_after_indexFile:
  "needsIndexing (indexFile now projectsDir path fileStats parseResult db) path
     (st_mtime fileStats) (st_size fileStats) \<longleftrightarrow> st_mtime fileStats = 0 \<and> now \<noteq> 0"
proof -
  have p: "filePath (build_conversation projectsDir path fileStats parseResult) = path"
    and m: "lastModified (build_conversation projectsDir path fileStats parseResult) = Some (st_mtime fileStats)"
    and z: "fileSize (build_conversation projectsDir path fileStats parseResult) = Some (st_size fileStats)"
    by (simp_all add: build_conversation_def Let_def split: prod.splits)
  have f: "find (\<lambda>f. fi_file_path f = path)
             (filter (\<lambda>g. fi_file_path g \<noteq> path) (file_index db) @ [r]) =
           (if fi_file_path r = path then Some r else None)" for r
    using find_filter_append [of "\<lambda>f. fi_file_path f = path" "file_index db" r] by simp
  show ?thesis
    by (auto simp: needsIndexing_def indexFile_def file_index_upsertConversation p m z f num_or_def)
qed

lemma second_pass_skips_other_mtime:
  "snd (runFullIndex ''/h/projects'' [ex_file 7 9500]
          (fst (runFullIndex ''/h/projects'' [ex_file 7 9000] empty_db))) =
     \<lparr>filesScanned = 1, filesIndexed = 0, filesSkipped = 1, filesRemoved = 0, errors = 0,
      projectNamesResolved = None\<rparr>"
  by code_simp


text \<open>
  \<^bold>\<open>C4.\<close> The code at a file whose modification time is the epoch (\<open>mtime = 0\<close>): the first
  full pass indexes it and tracks it with the clock reading 9000 in place of its \<open>mtime\<close>;
  the second pass over the same unmodified file finds \<open>0 \<noteq> 9000\<close> and indexes it again,
  reporting \<open>indexed = 1\<close> and \<open>skipped = 0\<close>, where the claim says \<open>skipped = 1\<close> and
  \<open>indexed = 0\<close>.
\<close>

theorem second_pass_reindexes_epoch_mtime:
  "snd (runFullIndex ''/h/projects'' [ex_file 0 9000] empty_db) =
     \<lparr>filesScanned = 1, filesIndexed = 1, filesSkipped = 0, filesRemoved = 0, errors = 0,
      projectNamesResolved = None\<rparr> \<and>
   file_index (fst (runFullIndex ''/h/projects'' [ex_file 0 9000] empty_db)) =
     [\<lparr>fi_file_path = ''/h/projects/-u-proj/e0.jsonl'', fi_mtime = 9000, fi_size = 120,
       fi_indexed_at = 9000\<rparr>] \<and>
   snd (runFullIndex ''/h/projects'' [ex_file 0 9500]
          (fst (runFullIndex ''/h/projects'' [ex_file 0 9000] empty_db))) =
     \<lparr>filesScanned = 1, filesIndexed = 1, filesSkipped = 0, filesRemoved = 0, errors = 0,
      projectNamesResolved = None\<rparr>"
  by code_simp


subsection \<open>The query sanitizer\<close>


lemma space_not_word: "is_space c \<Longrightarrow> \<not> is_word c"
  by (auto simp: is_space_def is_word_def)

lemma blank_is_space [simp]: "is_space CHR '' ''"
  by (simp add: is_space_def)

lemma blank_not_word [simp]: "\<not> is_word CHR '' ''"
  by (simp add: is_word_def)

lemma blank_not_special [simp]: "CHR '' '' \<notin> set special_chars"
  by (simp add: special_chars_def)

lemma upper_letter_word:
  "(65::nat) \<le> of_char (ascii_upper c) \<Longrightarrow> of_char (ascii_upper c) \<le> (90::nat) \<Longrightarrow> is_word c"
  by (auto simp: ascii_upper_def is_word_def split: if_splits)

lemma operators_upper:
  "op \<in> set operators \<Longrightarrow> d \<in> set op \<Longrightarrow> (65::nat) \<le> of_char d \<and> of_char d \<le> (90::nat)"
  by (auto simp: operators_def)

lemma operators_nonempty: "op \<in> set operators \<Longrightarrow> op \<noteq> []"
  by (auto simp: operators_def)

lemma takeWhile_eq_take_if:
  assumes "\<forall>c \<in> set (take n s). P c" "drop n s = [] \<or> \<not> P (hd (drop n s))"
  shows "takeWhile P s = take n s"
proof -
  have "takeWhile P (take n s @ drop n s) = take n s"
  proof (cases "drop n s")
    case Nil
    with assms(1) show ?thesis by (simp add: takeWhile_eq_all_conv)
  next
    case (Cons d ds)
    with assms(2) have "\<not> P d" by simp
    with assms(1) Cons show ?thesis by (simp add: takeWhile_append2)
  qed
  then show ?thesis by simp
qed

lemma matches_op_iff:
  assumes "op \<in> set operators"
  shows "matches_op op s \<longleftrightarrow> map ascii_upper (takeWhile is_word s) = op"
proof
  assume m: "matches_op op s"
  then have u: "map ascii_upper (take (length op) s) = op"
    and b: "drop (length op) s = [] \<or> \<not> is_word (hd (drop (length op) s))"
    by (auto simp: matches_op_def split: list.splits)
  have "\<forall>c \<in> set (take (length op) s). is_word c"
  proof
    fix c assume "c \<in> set (take (length op) s)"
    then have "ascii_upper c \<in> set (map ascii_upper (take (length op) s))" by simp
    then have "ascii_upper c \<in> set op" by (simp only: u)
    from operators_upper [OF assms this] show "is_word c" by (auto intro: upper_letter_word)
  qed
  from takeWhile_eq_take_if [OF this b] u show "map ascii_upper (takeWhile is_word s) = op" by simp
next
  assume u: "map ascii_upper (takeWhile is_word s) = op"
  then have l: "length (takeWhile is_word s) = length op" by (metis length_map)
  have t: "take (length op) s = takeWhile is_word s"
    using takeWhile_eq_take [of is_word s] l by simp
  have d: "drop (length op) s = dropWhile is_word s"
    using dropWhile_eq_drop [of is_word s] l by simp
  have "case dropWhile is_word s of [] \<Rightarrow> True | d # _ \<Rightarrow> \<not> is_word d"
  proof (cases "dropWhile is_word s")
    case Nil
    show ?thesis unfolding Nil by simp
  next
    case (Cons d ds)
    have "dropWhile is_word s \<noteq> []" unfolding Cons by simp
    then have "\<not> is_word (hd (dropWhile is_word s))" by (rule hd_dropWhile)
    then have "\<not> is_word d" unfolding Cons by simp
    then show ?thesis unfolding Cons by simp
  qed
  then show "matches_op op s"
    unfolding matches_op_def t d using u by simp
qed

lemma op_match_iff: "op_match s \<noteq> None \<longleftrightarrow> is_operator (takeWhile is_word s)"
proof -
  have "op_match s \<noteq> None \<longleftrightarrow> (\<exists>op \<in> set operators. matches_op op s)"
    by (auto simp: op_match_def find_None_iff)
  also have "\<dots> \<longleftrightarrow> (\<exists>op \<in> set operators. map ascii_upper (takeWhile is_word s) = op)"
    using matches_op_iff by blast
  finally show ?thesis by (auto simp: is_operator_def)
qed

lemma op_match_length: "op_match s = Some n \<Longrightarrow> n = length (takeWhile is_word s)"
proof -
  assume "op_match s = Some n"
  then obtain op where f: "find (\<lambda>op. matches_op op s) operators = Some op" and n: "n = length op"
    by (auto simp: op_match_def)
  from f have "op \<in> set operators" "matches_op op s"
    by (auto simp: find_Some_iff)
  with matches_op_iff have "map ascii_upper (takeWhile is_word s) = op" by blast
  with n show ?thesis by (metis length_map)
qed

lemma not_operator_Nil [simp]: "\<not> is_operator []"
  by (simp add: is_operator_def operators_def)

lemma op_match_nonword: "\<not> is_word c \<Longrightarrow> op_match (c # cs) = None"
  using op_match_iff [of "c # cs"] by simp


lemma set_replace_special: "set (replace_special q) \<inter> set special_chars = {}"
  by (auto simp: replace_special_def)

lemma set_strip_ops: "set (strip_ops pw k s) \<subseteq> insert CHR '' '' (set s)"
proof (induction pw k s rule: strip_ops.induct)
  case (1 prev_word skip)
  then show ?case by simp
next
  case (2 prev_word skip c cs)
  then show ?case by auto
next
  case (3 prev_word c cs)
  show ?case
  proof (cases "if prev_word then None else op_match (c # cs)")
    case None
    with 3(1) [OF None] show ?thesis by (simp only: strip_ops.simps) auto
  next
    case (Some n)
    with 3(2) [OF Some] show ?thesis by (simp only: strip_ops.simps) auto
  qed
qed

lemma set_collapse_ws:
  "set (collapse_ws b s) \<subseteq> insert CHR '' '' {c \<in> set s. \<not> is_space c}"
  by (induction b s rule: collapse_ws.induct) auto

lemma set_trim: "set (trim s) \<subseteq> set s"
  by (auto simp: trim_def dest!: set_dropWhileD)

lemma sanitized_chars:
  assumes "c \<in> set (sanitized q)"
  shows "c \<notin> set special_chars" and "is_space c \<Longrightarrow> c = CHR '' ''"
proof -
  let ?a = "replace_special q" and ?b = "strip_ops False 0 (replace_special q)"
  from assms have 1: "c \<in> set (collapse_ws False ?b)"
    using set_trim by (auto simp: sanitized_def)
  then have 2: "c = CHR '' '' \<or> (c \<in> set ?b \<and> \<not> is_space c)"
    using set_collapse_ws [of False ?b] by auto
  then show "is_space c \<Longrightarrow> c = CHR '' ''" by auto
  from 2 have "c = CHR '' '' \<or> c \<in> set ?a"
    using set_strip_ops [of False 0 ?a] by auto
  then show "c \<notin> set special_chars"
    using set_replace_special [of q] by auto
qed

lemma single_spaced_collapse_ws:
  "single_spaced (collapse_ws b s) \<and>
   (b \<longrightarrow> collapse_ws b s = [] \<or> hd (collapse_ws b s) \<noteq> CHR '' '')"
proof (induction b s rule: collapse_ws.induct)
  case (1 in_run)
  then show ?case by simp
next
  case (2 in_run c cs)
  show ?case
  proof (cases "is_space c")
    case True
    with 2 show ?thesis
      by (cases "collapse_ws True cs") auto
  next
    case False
    then have "c \<noteq> CHR '' ''" by auto
    with False 2 show ?thesis
      by (cases "collapse_ws False cs") auto
  qed
qed

lemma single_spaced_tl: "single_spaced (x # ys) \<Longrightarrow> single_spaced ys"
  by (cases ys) auto

lemma single_spaced_appendD2: "single_spaced (xs @ ys) \<Longrightarrow> single_spaced ys"
  by (induction xs) (auto dest: single_spaced_tl)

lemma single_spaced_appendD1: "single_spaced (xs @ ys) \<Longrightarrow> single_spaced xs"
  by (induction xs rule: single_spaced.induct) simp_all

lemma single_spaced_trim: "single_spaced s \<Longrightarrow> single_spaced (trim s)"
proof -
  assume s: "single_spaced s"
  let ?t = "dropWhile is_space s"
  have "s = takeWhile is_space s @ ?t" by simp
  with s have t: "single_spaced ?t" by (metis single_spaced_appendD2)
  have "?t = rev (dropWhile is_space (rev ?t)) @ rev (takeWhile is_space (rev ?t))"
    by (metis rev_append rev_rev_ident takeWhile_dropWhile_id)
  with t have "single_spaced (rev (dropWhile is_space (rev ?t)))"
    by (metis single_spaced_appendD1)
  then show ?thesis by (simp add: trim_def)
qed

lemma trim_ends:
  assumes "trim s \<noteq> []"
  shows "\<not> is_space (hd (trim s))" and "\<not> is_space (last (trim s))"
proof -
  let ?t = "dropWhile is_space s"
  let ?u = "dropWhile is_space (rev ?t)"
  from assms have u: "?u \<noteq> []" by (simp add: trim_def)
  then have t: "?t \<noteq> []" by (auto dest: set_dropWhileD)
  have "last (trim s) = hd ?u" using u by (simp add: trim_def last_rev)
  moreover have "\<not> is_space (hd ?u)" using u by (rule hd_dropWhile)
  ultimately show "\<not> is_space (last (trim s))" by simp
  have "rev ?t = takeWhile is_space (rev ?t) @ ?u" by simp
  then have "last (rev ?t) = last ?u" using u by (metis last_appendR)
  then have "hd ?t = last ?u" using t by (simp add: last_rev)
  moreover have "hd (trim s) = last ?u" using u by (simp add: trim_def hd_rev)
  moreover have "\<not> is_space (hd ?t)" using t by (rule hd_dropWhile)
  ultimately show "\<not> is_space (hd (trim s))" by simp
qed


lemma has_op_Cons:
  "has_op pw (c # cs) \<longleftrightarrow>
     (\<not> pw \<and> is_operator (takeWhile is_word (c # cs))) \<or> has_op (is_word c) cs"
  unfolding has_op.simps using op_match_iff [of "c # cs"] by blast

declare has_op.simps(2) [simp del]
declare op_match_nonword [simp]

lemma has_op_nonword: "\<not> is_word c \<Longrightarrow> has_op pw (c # cs) = has_op False cs"
  by (simp add: has_op_Cons)

lemma has_op_True: "has_op True s = has_op False (dropWhile is_word s)"
  by (induction s) (simp_all add: has_op_Cons)

lemma has_op_word:
  "is_word c \<Longrightarrow>
   has_op False (c # cs) \<longleftrightarrow>
     is_operator (c # takeWhile is_word cs) \<or> has_op False (dropWhile is_word cs)"
  by (simp add: has_op_Cons has_op_True)

lemma strip_ops_nonword: "\<not> is_word c \<Longrightarrow> strip_ops pw 0 (c # cs) = c # strip_ops False 0 cs"
  by (simp add: op_match_nonword)

lemma strip_ops_skip:
  "strip_ops True (length (takeWhile is_word cs)) cs = strip_ops True 0 (dropWhile is_word cs)"
  by (induction cs) simp_all

lemma strip_ops_True:
  "strip_ops True 0 s = takeWhile is_word s @ strip_ops True 0 (dropWhile is_word s)"
  by (induction s) simp_all

lemma starts_nonword_dropWhile:
  "dropWhile is_word s = [] \<or> \<not> is_word (hd (dropWhile is_word s))"
  using hd_dropWhile [of is_word s] by blast

lemma strip_ops_True_False:
  "r = [] \<or> \<not> is_word (hd r) \<Longrightarrow> strip_ops True 0 r = strip_ops False 0 r"
  by (cases r) (simp_all add: strip_ops_nonword)

lemma strip_ops_word:
  assumes "is_word c"
  shows "strip_ops False 0 (c # cs) =
           (if is_operator (c # takeWhile is_word cs)
            then CHR '' '' # strip_ops False 0 (dropWhile is_word cs)
            else (c # takeWhile is_word cs) @ strip_ops False 0 (dropWhile is_word cs))"
proof -
  have w: "takeWhile is_word (c # cs) = c # takeWhile is_word cs" using assms by simp
  note tf = strip_ops_True_False [OF starts_nonword_dropWhile [of cs]]
  show ?thesis
  proof (cases "op_match (c # cs)")
    case None
    with op_match_iff [of "c # cs"] have "\<not> is_operator (c # takeWhile is_word cs)"
      unfolding w by blast
    moreover have "strip_ops False 0 (c # cs) = c # strip_ops True 0 cs"
      using None assms by simp
    ultimately show ?thesis
      using strip_ops_True [of cs] tf by simp
  next
    case (Some n)
    with op_match_iff [of "c # cs"] have o: "is_operator (c # takeWhile is_word cs)"
      unfolding w by blast
    from op_match_length [OF Some] have n: "n - 1 = length (takeWhile is_word cs)"
      unfolding w by simp
    have "strip_ops False 0 (c # cs) = CHR '' '' # strip_ops True (n - 1) cs"
      using Some assms by simp
    with o show ?thesis
      unfolding n strip_ops_skip tf by simp
  qed
qed

declare strip_ops.simps(3) [simp del]

lemma strip_ops_starts_nonword:
  "r = [] \<or> \<not> is_word (hd r) \<Longrightarrow>
   strip_ops False 0 r = [] \<or> \<not> is_word (hd (strip_ops False 0 r))"
  by (cases r) (simp_all add: strip_ops_nonword)

lemma takeWhile_run:
  "\<forall>x \<in> set u. P x \<Longrightarrow> t = [] \<or> \<not> P (hd t) \<Longrightarrow>
   takeWhile P (u @ t) = u \<and> dropWhile P (u @ t) = t"
  by (cases t) (simp_all add: takeWhile_append2 dropWhile_append2 takeWhile_eq_all_conv)

lemma no_op_strip_ops: "\<not> has_op False (strip_ops False 0 s)"
proof (induction "length s" arbitrary: s rule: less_induct)
  case less
  show ?case
  proof (cases s)
    case Nil
    then show ?thesis by simp
  next
    case (Cons c cs)
    show ?thesis
    proof (cases "is_word c")
      case False
      have "\<not> has_op False (strip_ops False 0 cs)" using less Cons by simp
      with False Cons show ?thesis by (simp add: strip_ops_nonword has_op_nonword)
    next
      case True
      let ?r = "dropWhile is_word cs" and ?u = "takeWhile is_word cs"
      have "length ?r \<le> length cs" by (rule length_dropWhile_le)
      then have ih: "\<not> has_op False (strip_ops False 0 ?r)" using less Cons by simp
      show ?thesis
      proof (cases "is_operator (c # ?u)")
        case o: True
        with True Cons ih show ?thesis by (simp add: strip_ops_word has_op_nonword)
      next
        case o: False
        let ?t = "strip_ops False 0 ?r"
        have t: "?t = [] \<or> \<not> is_word (hd ?t)"
          by (rule strip_ops_starts_nonword [OF starts_nonword_dropWhile])
        have u: "\<forall>x \<in> set ?u. is_word x" by (auto dest: set_takeWhileD)
        from takeWhile_run [OF u t]
        have "\<not> has_op False (c # (?u @ ?t))"
          using True o ih by (simp add: has_op_word)
        with True o Cons show ?thesis by (simp add: strip_ops_word)
      qed
    qed
  qed
qed

lemma takeWhile_word_collapse_ws:
  "takeWhile is_word (collapse_ws False s) = takeWhile is_word s"
  by (induction s) (auto dest: space_not_word)

lemma has_op_collapse_ws:
  "has_op False (collapse_ws b s) = has_op False s \<and>
   has_op True (collapse_ws False s) = has_op True s"
proof (induction s arbitrary: b)
  case Nil
  then show ?case by simp
next
  case (Cons c cs)
  show ?case
  proof (cases "is_space c")
    case True
    then have "\<not> is_word c" by (rule space_not_word)
    with True Cons show ?thesis by (simp add: has_op_nonword)
  next
    case False
    have "takeWhile is_word (c # collapse_ws False cs) = takeWhile is_word (c # cs)"
      by (simp add: takeWhile_word_collapse_ws)
    with False Cons [of False] show ?thesis
      by (cases "is_word c") (simp_all add: has_op_Cons del: takeWhile.simps)
  qed
qed

lemma has_op_drop_spaces: "has_op False (dropWhile is_space s) = has_op False s"
  by (induction s) (simp_all add: has_op_nonword space_not_word)

lemma has_op_snoc_nonword: "\<not> is_word c \<Longrightarrow> has_op pw (s @ [c]) = has_op pw s"
proof (induction s arbitrary: pw)
  case Nil
  then show ?case by (simp add: has_op_Cons)
next
  case (Cons d ds)
  have "takeWhile is_word (ds @ [c]) = takeWhile is_word ds"
    using Cons.prems by (induction ds) simp_all
  with Cons show ?case by (simp add: has_op_Cons)
qed

lemma has_op_append_nonwords:
  "\<forall>c \<in> set ws. \<not> is_word c \<Longrightarrow> has_op pw (s @ ws) = has_op pw s"
proof (induction ws rule: rev_induct)
  case Nil
  then show ?case by simp
next
  case (snoc c ws)
  then have "has_op pw ((s @ ws) @ [c]) = has_op pw (s @ ws)"
    by (intro has_op_snoc_nonword) simp
  with snoc show ?case by simp
qed

lemma has_op_trim: "has_op False (trim s) = has_op False s"
proof -
  let ?t = "dropWhile is_space s"
  have "?t = trim s @ rev (takeWhile is_space (rev ?t))"
    unfolding trim_def by (metis rev_append rev_rev_ident takeWhile_dropWhile_id)
  moreover have "\<forall>c \<in> set (rev (takeWhile is_space (rev ?t))). \<not> is_word c"
    by (auto dest!: set_takeWhileD space_not_word)
  ultimately have "has_op False ?t = has_op False (trim s)"
    by (metis has_op_append_nonwords)
  then show ?thesis by (simp add: has_op_drop_spaces)
qed

lemma no_op_sanitized: "\<not> has_op False (sanitized q)"
  by (simp add: sanitized_def has_op_trim has_op_collapse_ws no_op_strip_ops)


lemma replace_special_id: "set q \<inter> set special_chars = {} \<Longrightarrow> replace_special q = q"
  unfolding replace_special_def by (rule map_idI) auto

lemma strip_ops_id: "\<not> has_op pw s \<Longrightarrow> strip_ops pw 0 s = s"
proof (induction s arbitrary: pw)
  case Nil
  then show ?case by simp
next
  case (Cons c cs)
  from Cons.prems have a: "(if pw then None else op_match (c # cs)) = None"
    and b: "\<not> has_op (is_word c) cs"
    by (auto simp: has_op.simps(2))
  from Cons.IH [OF b] a show ?case by (simp add: strip_ops.simps(3))
qed

lemma collapse_ws_id:
  "\<forall>c \<in> set s. is_space c \<longrightarrow> c = CHR '' '' \<Longrightarrow> single_spaced s \<Longrightarrow>
   b \<longrightarrow> s = [] \<or> hd s \<noteq> CHR '' '' \<Longrightarrow> collapse_ws b s = s"
proof (induction s arbitrary: b)
  case Nil
  then show ?case by simp
next
  case (Cons c cs)
  from Cons.prems(2) have s: "single_spaced cs" by (rule single_spaced_tl)
  from Cons.prems(1) have r: "\<forall>c \<in> set cs. is_space c \<longrightarrow> c = CHR '' ''" by simp
  show ?case
  proof (cases "is_space c")
    case True
    with Cons.prems(1) have c: "c = CHR '' ''" by simp
    with Cons.prems(3) have nb: "\<not> b" by simp
    from c Cons.prems(2) have "cs = [] \<or> hd cs \<noteq> CHR '' ''" by (cases cs) auto
    with Cons.IH [OF r s, of True] have "collapse_ws True cs = cs" by simp
    with True nb c show ?thesis by simp
  next
    case False
    with Cons.IH [OF r s, of False] show ?thesis by simp
  qed
qed

lemma trim_id:
  assumes "s = [] \<or> (\<not> is_space (hd s) \<and> \<not> is_space (last s))"
  shows "trim s = s"
proof (cases s)
  case Nil
  then show ?thesis by (simp add: trim_def)
next
  case (Cons c cs)
  with assms have h: "\<not> is_space (hd s)" and l: "\<not> is_space (last s)" by auto
  from h Cons have 1: "dropWhile is_space s = s" by simp
  from Cons have "rev s \<noteq> []" by simp
  moreover from l Cons have "\<not> is_space (hd (rev s))" by (metis hd_rev list.distinct(1))
  ultimately have 2: "dropWhile is_space (rev s) = rev s" by (cases "rev s") auto
  show ?thesis by (simp add: trim_def 1 2)
qed

lemma sanitized_clean: "clean_query q \<Longrightarrow> sanitized q = q"
  by (simp add: clean_query_def sanitized_def replace_special_id strip_ops_id collapse_ws_id
      trim_id list_all_iff)

lemma clean_sanitized: "clean_query (sanitized q)"
proof -
  have "single_spaced (sanitized q)"
    unfolding sanitized_def by (intro single_spaced_trim conjunct1 [OF single_spaced_collapse_ws])
  moreover have "sanitized q = [] \<or>
      (\<not> is_space (hd (sanitized q)) \<and> \<not> is_space (last (sanitized q)))"
    using trim_ends [of "collapse_ws False (strip_ops False 0 (replace_special q))"]
    by (auto simp: sanitized_def)
  ultimately show ?thesis
    using sanitized_chars [of _ q] no_op_sanitized [of q]
    by (auto simp: clean_query_def list_all_iff)
qed


text \<open>
  \<^bold>\<open>C5.\<close> \<open>escapeFtsQuery\<close> is never empty, and it is the sentinel \<open>*\<close> exactly when the
  sanitized query is empty; otherwise it is the sanitized query. The sanitized query is the
  input with each special character replaced by a space, the operator matches replaced by a
  space (a match is a whole run of \<^verbatim>\<open>\w\<close> characters between two \<^verbatim>\<open>\b\<close>), the runs of
  white space collapsed and the ends trimmed. It holds none of the special characters, no
  white space but single spaces, none at either end, and the operator pattern does not match
  it. A query that is already like this comes back unchanged.
\<close>

theorem escapeFtsQuery_sanitizes:
  "escapeFtsQuery q \<noteq> [] \<and>
   (escapeFtsQuery q = ''*'' \<longleftrightarrow> sanitized q = []) \<and>
   (sanitized q \<noteq> [] \<longrightarrow> escapeFtsQuery q = sanitized q) \<and>
   sanitized q = trim (collapse_ws False (strip_ops False 0 (replace_special q))) \<and>
   replace_special q = map (\<lambda>c. if c \<in> set special_chars then CHR '' '' else c) q \<and>
   (\<forall>c \<in> set (sanitized q). c \<notin> set special_chars \<and> (is_space c \<longrightarrow> c = CHR '' '')) \<and>
   single_spaced (sanitized q) \<and>
   (sanitized q \<noteq> [] \<longrightarrow> \<not> is_space (hd (sanitized q)) \<and> \<not> is_space (last (sanitized q))) \<and>
   \<not> has_op False (sanitized q) \<and>
   (clean_query q \<longrightarrow> sanitized q = q) \<and>
   sanitized (sanitized q) = sanitized q"
proof -
  have star: "sanitized q \<noteq> ''*''"
    using sanitized_chars(1) [of "CHR ''*''" q] by (auto simp: special_chars_def)
  note c = clean_sanitized [of q]
  from c have e: "sanitized q \<noteq> [] \<longrightarrow>
      \<not> is_space (hd (sanitized q)) \<and> \<not> is_space (last (sanitized q))"
    by (auto simp: clean_query_def)
  from c have s: "single_spaced (sanitized q)" by (simp add: clean_query_def)
  have ch: "\<forall>c \<in> set (sanitized q). c \<notin> set special_chars \<and> (is_space c \<longrightarrow> c = CHR '' '')"
    using sanitized_chars [of _ q] by blast
  show ?thesis
    using star e s ch no_op_sanitized [of q] sanitized_clean [of q] sanitized_clean [OF c]
    by (simp add: escapeFtsQuery_def) (simp add: sanitized_def replace_special_def)
qed

theorem escapeFtsQuery_sanitizes_witness:
  "sanitized ''error:ENOENT AND (file NOT  found)'' \<noteq> [] \<and>
   escapeFtsQuery ''error:ENOENT AND (file NOT  found)'' = ''error ENOENT file found'' \<and>
   sanitized ''and (OR) near'' = [] \<and>
   escapeFtsQuery ''and (OR) near'' = ''*'' \<and>
   clean_query ''sandbox android'' \<and>
   sanitized ''sandbox android'' = ''sandbox android''"
proof -
  have a: "sanitized ''error:ENOENT AND (file NOT  found)'' = ''error ENOENT file found''"
    by code_simp
  have b: "sanitized ''and (OR) near'' = []"
    by code_simp
  have c: "clean_query ''sandbox android''"
    by code_simp
  from escapeFtsQuery_sanitizes [of "''error:ENOENT AND (file NOT  found)''"] a
  have 1: "escapeFtsQuery ''error:ENOENT AND (file NOT  found)'' = ''error ENOENT file found''"
    by simp
  from escapeFtsQuery_sanitizes [of "''and (OR) near''"] b
  have 2: "escapeFtsQuery ''and (OR) near'' = ''*''"
    by blast
  from escapeFtsQuery_sanitizes [of "''sandbox android''"] c
  have 3: "sanitized ''sandbox android'' = ''sandbox android''"
    by blast
  from a 1 b 2 c 3 show ?thesis by simp
qed

subsection \<open>Resolving the project names\<close>





















lemma set_project_id [simp]: "c_id (set_project name r) = c_id r"
  by (simp add: set_project_def)

lemma set_fts_project_id [simp]: "fts_conversation_id (set_fts_project name f) = fts_conversation_id f"
  by (simp add: set_fts_project_def)

lemma set_project_twice [simp]: "set_project name (set_project name r) = set_project name r"
  by (simp add: set_project_def)

lemma set_fts_project_twice [simp]:
  "set_fts_project name (set_fts_project name f) = set_fts_project name f"
  by (simp add: set_fts_project_def)



lemma upd_ids_Nil [simp]: "upd_ids name [] = {}"
  by (simp add: upd_ids_def)


lemma rs_db_foldersResolved [simp]: "rs_db (st\<lparr>foldersResolved := n\<rparr>) = rs_db st"
  by simp















lemma resolved_row_fields [simp]:
  "c_file_path (resolved_row db r) = c_file_path r"
  "c_cwd (resolved_row db r) = c_cwd r"
  "c_id (resolved_row db r) = c_id r"
  by (simp_all add: resolved_row_def split: option.splits)







end
